theory Spec2Isabelle
  imports Complex_Main "HOL-Library.Char_ord" "HOL-Library.List_Lexorder"
begin

section \<open>Data model of vec2dic.cpp\<close>

text \<open>
  The three polarity classes, in the order of the table \<^verbatim>\<open>pol2pol\<close> and of the
  \<^verbatim>\<open>switch\<close> in \<^verbatim>\<open>output_terms\<close>.
\<close>

datatype Polarity = POSITIVE | NEGATIVE | NEUTRAL

text \<open>
  \<^verbatim>\<open>size_t\<close> positions in a \<^verbatim>\<open>std::string\<close> are natural numbers below \<open>2 ^ 64\<close>;
  \<^verbatim>\<open>std::string::npos\<close> is the largest of them. No string is \<open>npos\<close> bytes long, so
  the only increment that can wrap around is the one of \<open>npos\<close> itself, and it is
  written out in \<open>incr\<close>.
\<close>

type_synonym size_t = nat

definition npos :: size_t where
  "npos = 2 ^ 64 - 1"

definition incr :: "size_t \<Rightarrow> size_t" where
  "incr p = (if p = npos then 0 else p + 1)"

text \<open>
  Vector ids are \<^verbatim>\<open>unsigned int\<close> counters that stay below the declared column count.
\<close>

type_synonym vid_t = nat

text \<open>
  Modelled from the spec: the container types \<^verbatim>\<open>w2v_t\<close>, \<^verbatim>\<open>v2w_t\<close>, \<^verbatim>\<open>w2p_t\<close> and
  \<^verbatim>\<open>v2p_t\<close> are declared in \<^verbatim>\<open>expansion.h\<close>, which is not among the sources. The spec
  describes them as associative containers keyed by word or by id, and the code calls
  \<^verbatim>\<open>reserve\<close>, \<^verbatim>\<open>emplace\<close>, \<^verbatim>\<open>find\<close> and \<^verbatim>\<open>clear\<close> on them, that is, they are
  \<^verbatim>\<open>std::unordered_map\<close>s. Such a map is a list of entries with pairwise different keys;
  the order of the list is the order in which a range-based \<^verbatim>\<open>for\<close> visits it. The
  standard leaves that order open: the model keeps the entries in the order of their
  insertion, and the theorems about a loop over a container are stated for every list.
\<close>

type_synonym ('k, 'v) unordered_map = "('k \<times> 'v) list"

type_synonym w2v_t = "(string, vid_t) unordered_map"
type_synonym v2w_t = "(vid_t, string) unordered_map"
type_synonym w2p_t = "(string, Polarity) unordered_map"
type_synonym v2p_t = "(vid_t, Polarity) unordered_map"

text \<open>\<^verbatim>\<open>m.find(k)\<close>: the entry of the key, \<open>None\<close> for \<^verbatim>\<open>m.end()\<close>.\<close>

definition find_key :: "('k, 'v) unordered_map \<Rightarrow> 'k \<Rightarrow> 'v option" where
  "find_key m k = map_of m k"

text \<open>
  \<^verbatim>\<open>m.emplace(k, v)\<close>: inserts the entry only when the map has no entry for the key;
  an existing entry is left as it is.
\<close>

definition emplace :: "'k \<Rightarrow> 'v \<Rightarrow> ('k, 'v) unordered_map \<Rightarrow> ('k, 'v) unordered_map" where
  "emplace k v m = (case find_key m k of None \<Rightarrow> m @ [(k, v)] | Some _ \<Rightarrow> m)"

text \<open>
  An \<^verbatim>\<open>arma::mat\<close>: its shape and its elements, \<open>elem A r c\<close> for \<^verbatim>\<open>A(r, c)\<close>. The
  elements are real numbers: the finite values of a \<^verbatim>\<open>double\<close> are among them, the
  infinities and NaN are not.
\<close>

record mat =
  n_rows :: nat
  n_cols :: nat
  elem :: "nat \<Rightarrow> nat \<Rightarrow> real"

text \<open>The static variables of the program.\<close>

record globals =
  word2vecid :: w2v_t
  vecid2word :: v2w_t
  word2pol :: w2p_t
  NWE :: mat

text \<open>
  The state at program start: the static containers are empty and the matrix has no
  rows and no columns (an element of an empty matrix is never read).
\<close>

definition empty_mat :: mat where
  "empty_mat = \<lparr>n_rows = 0, n_cols = 0, elem = (\<lambda>_ _. 0)\<rparr>"

definition initial :: globals where
  "initial = \<lparr>word2vecid = [], vecid2word = [], word2pol = [], NWE = empty_mat\<rparr>"

text \<open>
  An input file stream: the lines \<^verbatim>\<open>std::getline\<close> delivers one after the other, and
  how the stream ends after the last of them, at the end of the file or with a read
  error. A file that cannot be opened is \<open>None\<close>.
\<close>

datatype stream_end = Eof | IOError

record ifstream =
  content :: "string list"
  ending :: stream_end

text \<open>
  A block of the code either runs through, jumps to the label \<^verbatim>\<open>error_exit\<close>, or
  reads a string outside its range or dereferences an end iterator, which is undefined
  behaviour in C++.
\<close>

datatype 'a attempt = Ok 'a | Goto_error_exit | Undefined_behaviour

text \<open>A loader returns its exit code and leaves the globals behind, unless its behaviour is undefined.\<close>

datatype exec = Returns int globals | Undefined

section \<open>Characters and strings\<close>

abbreviation NUL :: char where
  "NUL \<equiv> CHR 0x00"

abbreviation TAB :: char where
  "TAB \<equiv> CHR 0x09"

abbreviation NL :: char where
  "NL \<equiv> CHR 0x0A"

text \<open>\<^verbatim>\<open>std::isspace\<close> in the "C" locale (the program only queries the locale).\<close>

definition isspace :: "char \<Rightarrow> bool" where
  "isspace c = (c \<in> set [CHR '' '', CHR 0x09, CHR 0x0A, CHR 0x0B, CHR 0x0C, CHR 0x0D])"

text \<open>\<^verbatim>\<open>::tolower\<close> in the "C" locale: the letters A to Z, and nothing else, change.\<close>

definition tolower :: "char \<Rightarrow> char" where
  "tolower c = (let n = (of_char c :: nat) in if 65 \<le> n \<and> n \<le> 90 then char_of (n + 32) else c)"

definition ltrim :: "string \<Rightarrow> string" where
  "ltrim s = dropWhile isspace s"

definition rtrim :: "string \<Rightarrow> string" where
  "rtrim s = rev (dropWhile isspace (rev s))"

definition normalize_str :: "string \<Rightarrow> string" where
  "normalize_str s = map tolower (ltrim (rtrim s))"

text \<open>
  \<^verbatim>\<open>s[i]\<close> on a \<^verbatim>\<open>std::string\<close>: the byte at \<open>i\<close> below the size, the terminating
  NUL at the size, and undefined behaviour (\<open>None\<close>) beyond it.
\<close>

definition char_at :: "string \<Rightarrow> size_t \<Rightarrow> char option" where
  "char_at s i = (if npos \<le> i then None
             else if i < length s then Some (s ! i)
             else if i = length s then Some NUL
             else None)"

text \<open>
  A \<^verbatim>\<open>const char *\<close> obtained with \<^verbatim>\<open>c_str()\<close> is read as a C string by
  \<^verbatim>\<open>sscanf\<close>, \<^verbatim>\<open>strcmp\<close> and the output operator: the bytes up to the first NUL.
\<close>

definition c_str :: "string \<Rightarrow> string" where
  "c_str s = takeWhile (\<lambda>c. c \<noteq> NUL) s"

text \<open>\<^verbatim>\<open>std::isspace(s[i])\<close>.\<close>

definition isspace_at :: "string \<Rightarrow> size_t \<Rightarrow> bool option" where
  "isspace_at s i = map_option isspace (char_at s i)"

text \<open>\<^verbatim>\<open>s.find_first_of(c)\<close>: the position of the first \<open>c\<close>, or \<open>npos\<close>.\<close>

fun find_first_of :: "string \<Rightarrow> char \<Rightarrow> size_t" where
  "find_first_of [] c = npos"
| "find_first_of (x # xs) c =
     (if x = c then 0
      else (let p = find_first_of xs c in if p = npos then npos else p + 1))"

text \<open>
  \<^verbatim>\<open>s.compare(pos, str.length(), str) == 0\<close>: the bytes of \<open>s\<close> from \<open>pos\<close> on, at most
  as many as \<open>str\<close> has, are \<open>str\<close>. (The call throws when \<open>pos\<close> is beyond the size; the
  loader only calls it at a position it has just read.)
\<close>

definition compare_eq :: "string \<Rightarrow> size_t \<Rightarrow> string \<Rightarrow> bool" where
  "compare_eq s pos str = (take (length str) (drop pos s) = str)"

definition positive :: string where
  "positive = ''positive''"

definition negative :: string where
  "negative = ''negative''"

definition neutral :: string where
  "neutral = ''neutral''"

section \<open>The seed set loader\<close>

text \<open>
  \<^verbatim>\<open>while (iline[++tab_pos] && std::isspace(iline[tab_pos])) {}\<close>: the result is the
  position the loop stops at.
\<close>

function skip_blanks :: "string \<Rightarrow> size_t \<Rightarrow> size_t option" where
  "skip_blanks iline tab_pos =
     (let p = incr tab_pos in
      case char_at iline p of
        None \<Rightarrow> None
      | Some c \<Rightarrow> if c \<noteq> NUL \<and> isspace c then skip_blanks iline p else Some p)"
  by pat_completeness auto
termination
proof (relation "measure (\<lambda>(iline, p). if p = npos then length iline + 1 else length iline - p)")
  show "wf (measure (\<lambda>(iline, p). if p = npos then length iline + 1 else length iline - p))"
    by simp
next
  fix iline :: string and tab_pos p :: size_t and c :: char
  assume p: "p = incr tab_pos" and c: "char_at iline p = Some c" and "c \<noteq> NUL \<and> isspace c"
  then have "p < npos" "p < length iline"
    by (auto simp: char_at_def isspace_def split: if_splits)
  with p show "((iline, p), (iline, tab_pos))
      \<in> measure (\<lambda>(iline, p). if p = npos then length iline + 1 else length iline - p)"
    by (auto simp: incr_def split: if_splits)
qed

declare skip_blanks.simps [simp del]

text \<open>
  \<^verbatim>\<open>while (pos > 0 && std::isspace(iline[pos])) {--pos;}\<close>, used by both loaders to walk
  back from a separator to the last byte of the word.
\<close>

function walk_back :: "string \<Rightarrow> size_t \<Rightarrow> size_t option" where
  "walk_back iline pos =
     (if pos > 0 then
        (case char_at iline pos of
           None \<Rightarrow> None
         | Some c \<Rightarrow> if isspace c then walk_back iline (pos - 1) else Some pos)
      else Some pos)"
  by pat_completeness auto
termination
  by (relation "measure (\<lambda>(iline, pos). pos)") auto

declare walk_back.simps [simp del]

text \<open>The chain of \<^verbatim>\<open>compare\<close> calls that determines the polarity class at a position.\<close>

definition polarity_at :: "string \<Rightarrow> size_t \<Rightarrow> Polarity option" where
  "polarity_at iline tab_pos =
     (if compare_eq iline tab_pos positive then Some POSITIVE
      else if compare_eq iline tab_pos negative then Some NEGATIVE
      else if compare_eq iline tab_pos neutral then Some NEUTRAL
      else None)"

text \<open>
  The body of the reading loop of \<^verbatim>\<open>read_seed_set\<close> for one non-empty line: the word
  and the polarity that the line adds to \<^verbatim>\<open>word2pol\<close>.
\<close>

definition seed_line :: "string \<Rightarrow> (string \<times> Polarity) attempt" where
  "seed_line l =
     (let iline = normalize_str l;
          tab_pos0 = find_first_of iline TAB;
          tab_pos_orig0 = tab_pos0
      in case skip_blanks iline tab_pos0 of
        None \<Rightarrow> Undefined_behaviour
      | Some tab_pos \<Rightarrow>
         (case char_at iline tab_pos of
            None \<Rightarrow> Undefined_behaviour
          | Some c \<Rightarrow>
             if tab_pos = npos \<or> c = NUL then Goto_error_exit
             else
              (case polarity_at iline tab_pos of
                 None \<Rightarrow> Goto_error_exit
               | Some ipol \<Rightarrow>
                  (case walk_back iline tab_pos_orig0 of
                     None \<Rightarrow> Undefined_behaviour
                   | Some tab_pos_orig \<Rightarrow>
                      if tab_pos_orig = 0 \<and> isspace_at iline 0 = Some True then Goto_error_exit
                      else Ok (take (incr tab_pos_orig) iline, ipol)))))"

text \<open>The reading loop: empty lines are skipped, every other line is emplaced.\<close>

fun seed_loop :: "string list \<Rightarrow> w2p_t \<Rightarrow> w2p_t attempt" where
  "seed_loop [] m = Ok m"
| "seed_loop (iline # rest) m =
     (if iline = [] then seed_loop rest m
      else case seed_line iline of
             Ok (w, ipol) \<Rightarrow> seed_loop rest (emplace w ipol m)
           | Goto_error_exit \<Rightarrow> Goto_error_exit
           | Undefined_behaviour \<Rightarrow> Undefined_behaviour)"

text \<open>
  \<^verbatim>\<open>read_seed_set\<close>: the label \<^verbatim>\<open>error_exit\<close> clears \<^verbatim>\<open>word2pol\<close> and returns 1.
\<close>

definition seed_error_exit :: "globals \<Rightarrow> exec" where
  "seed_error_exit st = Returns 1 (st\<lparr>word2pol := []\<rparr>)"

definition read_seed_set :: "ifstream option \<Rightarrow> globals \<Rightarrow> exec" where
  "read_seed_set a_fname st =
     (case a_fname of
        None \<Rightarrow> seed_error_exit st
      | Some is \<Rightarrow>
         (case seed_loop (content is) (word2pol st) of
            Ok m \<Rightarrow>
              if ending is = IOError then seed_error_exit (st\<lparr>word2pol := m\<rparr>)
              else Returns 0 (st\<lparr>word2pol := m\<rparr>)
          | Goto_error_exit \<Rightarrow> seed_error_exit st
          | Undefined_behaviour \<Rightarrow> Undefined))"


section \<open>Merging and printing the result\<close>

text \<open>
  \<^verbatim>\<open>strcmp\<close>: the difference of the first two bytes that differ, read as
  \<^verbatim>\<open>unsigned char\<close>; the end of a string counts as its NUL.
\<close>

fun strcmp :: "string \<Rightarrow> string \<Rightarrow> int" where
  "strcmp [] [] = 0"
| "strcmp [] (y # ys) = - int (of_char y)"
| "strcmp (x # xs) [] = int (of_char x)"
| "strcmp (x # xs) (y # ys) =
     (if x \<noteq> y then int (of_char x) - int (of_char y)
      else if x = NUL then 0
      else strcmp xs ys)"

text \<open>The pair of a C string and a polarity, \<^verbatim>\<open>struct WP\<close>.\<close>

record wp_t =
  m_word :: string
  m_polarity :: Polarity

type_synonym wpv_t = "wp_t list"

text \<open>
  \<^verbatim>\<open>std::sort\<close> with a comparison function, as an insertion sort. The standard leaves
  the order of elements that compare equal open; this is one of the orders it allows.
\<close>

fun insort_by :: "('a \<Rightarrow> 'a \<Rightarrow> bool) \<Rightarrow> 'a \<Rightarrow> 'a list \<Rightarrow> 'a list" where
  "insort_by lt x [] = [x]"
| "insort_by lt x (y # ys) = (if lt y x then y # insort_by lt x ys else x # y # ys)"

definition sort_by :: "('a \<Rightarrow> 'a \<Rightarrow> bool) \<Rightarrow> 'a list \<Rightarrow> 'a list" where
  "sort_by lt xs = foldr (insort_by lt) xs []"

text \<open>The first loop of \<^verbatim>\<open>output_terms\<close>: the new words are added to \<^verbatim>\<open>word2pol\<close>.
  The code assumes that the word of an id is always found and dereferences the iterator
  that \<^verbatim>\<open>find\<close> returns.\<close>

fun merge_terms :: "v2w_t \<Rightarrow> v2p_t \<Rightarrow> w2p_t \<Rightarrow> w2p_t attempt" where
  "merge_terms v2w [] m = Ok m"
| "merge_terms v2w ((vecid, pol) # rest) m =
     (case find_key v2w vecid of
        None \<Rightarrow> Undefined_behaviour
      | Some w \<Rightarrow> merge_terms v2w rest (emplace w pol m))"

text \<open>The second loop: the word/polarity vector.\<close>

definition populate :: "w2p_t \<Rightarrow> wpv_t" where
  "populate m = map (\<lambda>(w, p). \<lparr>m_word = c_str w, m_polarity = p\<rparr>) m"

text \<open>The comparison function given to \<^verbatim>\<open>std::sort\<close>.\<close>

definition wp_less :: "wp_t \<Rightarrow> wp_t \<Rightarrow> bool" where
  "wp_less wp1 wp2 = (strcmp (m_word wp1) (m_word wp2) < 0)"

definition sorted_terms :: "w2p_t \<Rightarrow> wpv_t" where
  "sorted_terms m = sort_by wp_less (populate m)"

text \<open>The \<^verbatim>\<open>switch\<close> over the polarity, and the line written for one entry.\<close>

definition polarity_name :: "Polarity \<Rightarrow> string" where
  "polarity_name p = (case p of POSITIVE \<Rightarrow> positive | NEGATIVE \<Rightarrow> negative | NEUTRAL \<Rightarrow> neutral)"

definition print_term :: "wp_t \<Rightarrow> string" where
  "print_term wp = m_word wp @ [TAB] @ polarity_name (m_polarity wp) @ [NL]"

definition print_terms :: "wpv_t \<Rightarrow> string" where
  "print_terms wpv = concat (map print_term wpv)"

text \<open>\<^verbatim>\<open>output_terms\<close>: the text written to the stream, and the globals it leaves.\<close>

definition output_terms :: "v2p_t \<Rightarrow> globals \<Rightarrow> (string \<times> globals) attempt" where
  "output_terms a_vecid2pol st =
     (case merge_terms (vecid2word st) a_vecid2pol (word2pol st) of
        Ok m \<Rightarrow> Ok (print_terms (sorted_terms m), st\<lparr>word2pol := m\<rparr>)
      | Goto_error_exit \<Rightarrow> Goto_error_exit
      | Undefined_behaviour \<Rightarrow> Undefined_behaviour)"

section \<open>The platform\<close>

text \<open>
  What the program takes from its platform. \<^verbatim>\<open>sscanf\<close> belongs to the C library:
  \<open>sscanf_uu s\<close> stands for \<^verbatim>\<open>sscanf(s, "%u %u", &ncolumns, &mrows)\<close> and is
  \<open>Some (ncolumns, mrows)\<close> when the call returns 2; \<open>sscanf_f s\<close> stands for
  \<^verbatim>\<open>sscanf(s, " %f%n", &iwght, &nchars)\<close> and is \<open>Some (iwght, nchars)\<close> when the call
  returns 1. \<open>fresh\<close> is what the memory holds that \<^verbatim>\<open>set_size\<close> allocates and does not
  initialize.

  The floating-point operations of \<^verbatim>\<open>_length_normalize\<close> round, and how they round
  belongs to the platform as well:
  \<^item> \<open>fp_accum ilength tmp_j\<close> is the value that \<^verbatim>\<open>ilength += tmp_j * tmp_j\<close> leaves in
    \<^verbatim>\<open>ilength\<close>;
  \<^item> \<open>fp_sqrt x\<close> is the value of \<^verbatim>\<open>sqrt(x)\<close>;
  \<^item> \<open>fp_float x\<close> is the value of the cast \<^verbatim>\<open>float(x)\<close>;
  \<^item> \<open>fp_div x y\<close> is the value that \<^verbatim>\<open>/=\<close> by \<open>y\<close> leaves in an element that held \<open>x\<close>.

  The values are real numbers: a run in which an operation overflows to an infinity or
  gives a NaN has no counterpart in the model. The theorems hold for every platform,
  unless they say otherwise.
\<close>

record platform =
  sscanf_uu :: "string \<Rightarrow> (nat \<times> nat) option"
  sscanf_f :: "string \<Rightarrow> (real \<times> nat) option"
  fresh :: "nat \<Rightarrow> nat \<Rightarrow> real"
  fp_accum :: "real \<Rightarrow> real \<Rightarrow> real"
  fp_sqrt :: "real \<Rightarrow> real"
  fp_float :: "real \<Rightarrow> real"
  fp_div :: "real \<Rightarrow> real \<Rightarrow> real"

text \<open>
  Exact arithmetic: no operation of the length normalization rounds. (Nothing is asked
  of a division by 0.)
\<close>

definition exact_arithmetic :: "platform \<Rightarrow> bool" where
  "exact_arithmetic pf =
     ((\<forall>ilength tmp_j. fp_accum pf ilength tmp_j = ilength + tmp_j * tmp_j)
      \<and> (\<forall>x. fp_sqrt pf x = sqrt x)
      \<and> (\<forall>x. fp_float pf x = x)
      \<and> (\<forall>x y. y \<noteq> 0 \<longrightarrow> fp_div pf x y = x / y))"

section \<open>The normalization passes\<close>

text \<open>
  \<^verbatim>\<open>a_nwe->col(i) /= x\<close>: every element of column \<open>i\<close> is divided by \<open>x\<close>, in the
  arithmetic of the platform.
\<close>

definition col_div :: "platform \<Rightarrow> mat \<Rightarrow> nat \<Rightarrow> real \<Rightarrow> mat" where
  "col_div pf A i x =
     A\<lparr>elem := (\<lambda>r c. if c = i \<and> r < n_rows A then fp_div pf (elem A r c) x else elem A r c)\<rparr>"

text \<open>\<^verbatim>\<open>a_nwe->row(i) -= x\<close>: \<open>x\<close> is subtracted from every element of row \<open>i\<close>.\<close>

definition row_sub :: "mat \<Rightarrow> nat \<Rightarrow> real \<Rightarrow> mat" where
  "row_sub A i x =
     A\<lparr>elem := (\<lambda>r c. if r = i \<and> c < n_cols A then elem A r c - x else elem A r c)\<rparr>"

text \<open>
  The inner loop of \<^verbatim>\<open>_length_normalize\<close>: \<^verbatim>\<open>ilength\<close> starts at 0 and takes up the
  elements of column \<open>i\<close>, from row 0 on.
\<close>

definition sum_squares :: "platform \<Rightarrow> mat \<Rightarrow> nat \<Rightarrow> real" where
  "sum_squares pf A i = fold (\<lambda>j ilength. fp_accum pf ilength (elem A j i)) [0..<n_rows A] 0"

text \<open>
  The body of the outer loop for column \<open>i\<close>: \<^verbatim>\<open>ilength = sqrt(ilength)\<close>, and if the
  result is not 0, the column is divided by \<^verbatim>\<open>float(ilength)\<close>.
\<close>

definition length_normalize_col :: "platform \<Rightarrow> nat \<Rightarrow> mat \<Rightarrow> mat" where
  "length_normalize_col pf i A =
     (let ilength = fp_sqrt pf (sum_squares pf A i)
      in if ilength \<noteq> 0 then col_div pf A i (fp_float pf ilength) else A)"

text \<open>\<^verbatim>\<open>_length_normalize\<close>: the columns are visited from 0 on.\<close>

definition length_normalize :: "platform \<Rightarrow> mat \<Rightarrow> mat" where
  "length_normalize pf A = fold (length_normalize_col pf) [0..<n_cols A] A"

text \<open>
  Modelled from the spec: \<^verbatim>\<open>arma::mean(A, 1)\<close> is a function of the Armadillo library,
  which is not among the sources. It is the column vector of the means of the rows, each
  taken across all columns. For a matrix without columns there is no mean to take, and
  the vector is empty (the loader passes such a matrix on only when it has no rows
  either).
\<close>

definition row_mean :: "mat \<Rightarrow> nat \<Rightarrow> real" where
  "row_mean A i = sum_list (map (elem A i) [0..<n_cols A]) / real (n_cols A)"

definition arma_mean_rows :: "mat \<Rightarrow> real list" where
  "arma_mean_rows A = (if n_cols A = 0 then [] else map (row_mean A) [0..<n_rows A])"

text \<open>
  \<^verbatim>\<open>_mean_normalize\<close>: the loop runs over the entries of \<^verbatim>\<open>vmean\<close>. The means and
  the subtraction are those of the real numbers (exact arithmetic).
\<close>

definition mean_normalize :: "mat \<Rightarrow> mat" where
  "mean_normalize A =
     (let vmean = arma_mean_rows A
      in fold (\<lambda>i B. row_sub B i (vmean ! i)) [0..<length vmean] A)"

section \<open>The vector loader\<close>

text \<open>\<^verbatim>\<open>NWE.set_size(mrows, ncolumns)\<close>.\<close>

definition set_size :: "platform \<Rightarrow> nat \<Rightarrow> nat \<Rightarrow> mat" where
  "set_size pf mrows ncolumns = \<lparr>n_rows = mrows, n_cols = ncolumns, elem = fresh pf\<rparr>"

text \<open>\<^verbatim>\<open>NWE(irow, icol) = iwght\<close>.\<close>

definition set_elem :: "mat \<Rightarrow> nat \<Rightarrow> nat \<Rightarrow> real \<Rightarrow> mat" where
  "set_elem A irow icol iwght = A\<lparr>elem := (elem A)(irow := (elem A irow)(icol := iwght))\<rparr>"

text \<open>
  \<^verbatim>\<open>while (std::getline(is, iline) && iline.empty()) {}\<close>: the line the loop stops at,
  the lines that are left in the stream, and whether the loop stopped because
  \<^verbatim>\<open>getline\<close> failed (the line is empty then).
\<close>

fun skip_empty :: "string list \<Rightarrow> string \<times> string list \<times> bool" where
  "skip_empty [] = ([], [], True)"
| "skip_empty (iline # rest) = (if iline = [] then skip_empty rest else (iline, rest, False))"

text \<open>
  The word of a data line: from the first blank the code walks back over the white
  space before it; the word is what stands before, and \<^verbatim>\<open>cline\<close> points to what follows.
\<close>

definition vec_word :: "string \<Rightarrow> (string \<times> string) attempt" where
  "vec_word iline =
     (case walk_back iline (find_first_of iline (CHR '' '')) of
        None \<Rightarrow> Undefined_behaviour
      | Some space_pos \<Rightarrow>
          if space_pos = 0 \<and> isspace_at iline 0 = Some True then Goto_error_exit
          else Ok (take (incr space_pos) iline, c_str (drop (incr space_pos) iline)))"

text \<open>
  \<^verbatim>\<open>for (irow = 0; irow < mrows && sscanf(cline, " %f%n", &iwght, &nchars) == 1; ++irow)\<close>:
  the value of \<^verbatim>\<open>irow\<close> after the loop, and the matrix.
\<close>

function scan_row :: "platform \<Rightarrow> vid_t \<Rightarrow> vid_t \<Rightarrow> vid_t \<Rightarrow> string \<Rightarrow> mat \<Rightarrow> vid_t \<times> mat" where
  "scan_row pf mrows icol irow cline A =
     (if irow < mrows then
        (case sscanf_f pf cline of
           Some (iwght, nchars) \<Rightarrow>
             scan_row pf mrows icol (irow + 1) (drop nchars cline) (set_elem A irow icol iwght)
         | None \<Rightarrow> (irow, A))
      else (irow, A))"
  by pat_completeness auto
termination
  by (relation "measure (\<lambda>(pf, mrows, icol, irow, cline, A). mrows - irow)") auto

declare scan_row.simps [simp del]

text \<open>
  The reading loop of \<^verbatim>\<open>read_vectors\<close>. It ends when \<^verbatim>\<open>icol\<close> has reached
  \<^verbatim>\<open>ncolumns\<close>, or when \<^verbatim>\<open>getline\<close> fails; the result holds the value of \<^verbatim>\<open>irow\<close>,
  whether \<^verbatim>\<open>getline\<close> has failed, and the globals.
\<close>

fun vec_loop :: "platform \<Rightarrow> vid_t \<Rightarrow> vid_t \<Rightarrow> vid_t \<Rightarrow> vid_t \<Rightarrow> string list \<Rightarrow> globals
    \<Rightarrow> (vid_t \<times> bool \<times> globals) attempt" where
  "vec_loop pf ncolumns mrows icol irow [] st = Ok (irow, icol < ncolumns, st)"
| "vec_loop pf ncolumns mrows icol irow (iline # rest) st =
     (if icol < ncolumns then
        (case vec_word iline of
           Ok (word, cline) \<Rightarrow>
             (let st1 = st\<lparr>word2vecid := emplace word icol (word2vecid st),
                           vecid2word := emplace icol word (vecid2word st)\<rparr>;
                  (irow1, A) = scan_row pf mrows icol 0 cline (NWE st1)
              in if irow1 \<noteq> mrows then Goto_error_exit
                 else vec_loop pf ncolumns mrows (icol + 1) irow1 rest (st1\<lparr>NWE := A\<rparr>))
         | Goto_error_exit \<Rightarrow> Goto_error_exit
         | Undefined_behaviour \<Rightarrow> Undefined_behaviour)
      else Ok (irow, False, st))"

text \<open>The label \<^verbatim>\<open>error_exit\<close> of \<^verbatim>\<open>read_vectors\<close>.\<close>

definition vec_error_exit :: "globals \<Rightarrow> exec" where
  "vec_error_exit st = Returns 1 (st\<lparr>word2vecid := [], vecid2word := [], NWE := empty_mat\<rparr>)"

text \<open>The two optional passes at the end of \<^verbatim>\<open>read_vectors\<close>.\<close>

definition normalize_passes :: "platform \<Rightarrow> bool \<Rightarrow> bool \<Rightarrow> mat \<Rightarrow> mat" where
  "normalize_passes pf a_no_length_normalize a_no_mean_normalize A =
     (let A1 = (if \<not> a_no_length_normalize then length_normalize pf A else A)
      in if \<not> a_no_mean_normalize then mean_normalize A1 else A1)"

text \<open>
  \<^verbatim>\<open>read_vectors\<close>. The stream has failed without reaching the end of the file when
  a \<^verbatim>\<open>getline\<close> has failed and the stream ends with a read error.
\<close>

definition read_vectors :: "platform \<Rightarrow> ifstream option \<Rightarrow> bool \<Rightarrow> bool \<Rightarrow> globals \<Rightarrow> exec" where
  "read_vectors pf a_fname a_no_length_normalize a_no_mean_normalize st =
     (case a_fname of
        None \<Rightarrow> vec_error_exit st
      | Some is \<Rightarrow>
         (case skip_empty (content is) of
            (iline, rest, failed0) \<Rightarrow>
             (case sscanf_uu pf (c_str iline) of
                None \<Rightarrow> vec_error_exit st
              | Some (ncolumns, mrows) \<Rightarrow>
                 (case vec_loop pf ncolumns mrows 0 0 rest (st\<lparr>NWE := set_size pf mrows ncolumns\<rparr>) of
                    Ok (irow, failed, st2) \<Rightarrow>
                      if (failed0 \<or> failed) \<and> ending is = IOError then vec_error_exit st2
                      else if irow \<noteq> mrows then vec_error_exit st2
                      else Returns 0
                        (st2\<lparr>NWE := normalize_passes pf a_no_length_normalize a_no_mean_normalize (NWE st2)\<rparr>)
                  | Goto_error_exit \<Rightarrow> vec_error_exit st
                  | Undefined_behaviour \<Rightarrow> Undefined))))"

text \<open>
  The platform of the examples below: the answers of \<^verbatim>\<open>sscanf\<close> on their strings,
  memory that holds zeros, and IEEE 754 arithmetic on the values that the length
  normalization of the column \<open>(1, 6)\<close> meets. There \<^verbatim>\<open>ilength\<close> goes through 1 and 37
  without rounding; \<^verbatim>\<open>sqrt(37.0)\<close> is the double \<open>6848581766208569 / 2 ^ 50\<close>, the
  cast of that double to \<^verbatim>\<open>float\<close> is \<open>6378239 / 2 ^ 20\<close>, and the doubles nearest to
  the quotients of 1 and of 6 by it are \<open>5923097560777695 / 2 ^ 55\<close> and
  \<open>4442323170583271 / 2 ^ 52\<close>. On other values the table answers without rounding; no
  example asks it there.
\<close>

definition example_platform :: platform where
  "example_platform =
     \<lparr>sscanf_uu = map_of [(''3 2'', (3, 2)), (''2 1'', (2, 1))],
      sscanf_f = map_of [('' 1.0 0.0'', (1, 4)), ('' 0.0'', (0, 4)), ('' 1'', (1, 2)), ('' 2'', (2, 2))],
      fresh = (\<lambda>_ _. 0),
      fp_accum = (\<lambda>ilength tmp_j. ilength + tmp_j * tmp_j),
      fp_sqrt = (\<lambda>x. if x = 37 then 6848581766208569 / 2 ^ 50 else sqrt x),
      fp_float = (\<lambda>x. if x = 6848581766208569 / 2 ^ 50 then 6378239 / 2 ^ 20 else x),
      fp_div = (\<lambda>x y. if y = 6378239 / 2 ^ 20 \<and> x = 1 then 5923097560777695 / 2 ^ 55
                      else if y = 6378239 / 2 ^ 20 \<and> x = 6 then 4442323170583271 / 2 ^ 52
                      else x / y)\<rparr>"

text \<open>The same platform with exact arithmetic.\<close>

definition exact_platform :: platform where
  "exact_platform =
     example_platform
       \<lparr>fp_accum := (\<lambda>ilength tmp_j. ilength + tmp_j * tmp_j), fp_sqrt := sqrt,
        fp_float := (\<lambda>x. x), fp_div := (\<lambda>x y. x / y)\<rparr>"

section \<open>The main program\<close>

text \<open>
  The loop of \<^verbatim>\<open>main\<close> that maps the vector ids to the known polarity of their words:
  a seed word that \<^verbatim>\<open>word2vecid\<close> does not have is passed over.
\<close>

fun seed_vecids :: "w2v_t \<Rightarrow> w2p_t \<Rightarrow> v2p_t \<Rightarrow> v2p_t" where
  "seed_vecids w2v [] vecid2pol = vecid2pol"
| "seed_vecids w2v ((w, pol) # rest) vecid2pol =
     (case find_key w2v w of
        None \<Rightarrow> seed_vecids w2v rest vecid2pol
      | Some vecid \<Rightarrow> seed_vecids w2v rest (emplace vecid pol vecid2pol))"

datatype ExpansionType =
  NC_CLUSTERING | KNN_CLUSTERING | PCA_CLUSTERING | PRJ_CLUSTERING | LIN_TRANSFORM | MAX_SENTINEL

text \<open>The members of \<^verbatim>\<open>class Option\<close> that the option parser has filled in.\<close>

record Option =
  knn :: int
  n_terms :: int
  no_length_normalize :: bool
  no_mean_normalize :: bool
  etype :: ExpansionType

text \<open>
  The five expansion functions are declared in \<^verbatim>\<open>expansion.h\<close> and defined outside
  the sources: they are parameters. Each takes the id-keyed labeling and the matrix and
  leaves the labeling it has extended, or throws (\<open>None\<close>).
\<close>

record expansion =
  expand_nearest_centroids :: "v2p_t \<Rightarrow> mat \<Rightarrow> int \<Rightarrow> v2p_t option"
  expand_knn :: "v2p_t \<Rightarrow> mat \<Rightarrow> int \<Rightarrow> int \<Rightarrow> v2p_t option"
  expand_pca :: "v2p_t \<Rightarrow> mat \<Rightarrow> int \<Rightarrow> v2p_t option"
  expand_projected :: "v2p_t \<Rightarrow> mat \<Rightarrow> int \<Rightarrow> v2p_t option"
  expand_linear_transform :: "v2p_t \<Rightarrow> mat \<Rightarrow> int \<Rightarrow> v2p_t option"

text \<open>The \<^verbatim>\<open>switch\<close> over the expansion type; its default branch throws.\<close>

definition expand :: "expansion \<Rightarrow> Option \<Rightarrow> v2p_t \<Rightarrow> mat \<Rightarrow> v2p_t option" where
  "expand ex opt vecid2pol A =
     (case etype opt of
        NC_CLUSTERING \<Rightarrow> expand_nearest_centroids ex vecid2pol A (n_terms opt)
      | KNN_CLUSTERING \<Rightarrow> expand_knn ex vecid2pol A (n_terms opt) (knn opt)
      | PCA_CLUSTERING \<Rightarrow> expand_pca ex vecid2pol A (n_terms opt)
      | PRJ_CLUSTERING \<Rightarrow> expand_projected ex vecid2pol A (n_terms opt)
      | LIN_TRANSFORM \<Rightarrow> expand_linear_transform ex vecid2pol A (n_terms opt)
      | MAX_SENTINEL \<Rightarrow> None)"

text \<open>
  How a run of \<^verbatim>\<open>main\<close> ends once the options are parsed and the two file arguments
  are there: it returns an exit code, having written a text to \<^verbatim>\<open>std::cout\<close>; an
  exception leaves it; or its behaviour is undefined.
\<close>

datatype outcome = Exit int string | Thrown | Crash

definition main :: "platform \<Rightarrow> expansion \<Rightarrow> Option \<Rightarrow> ifstream option \<Rightarrow> ifstream option
    \<Rightarrow> outcome" where
  "main pf ex opt vector_file seed_file =
     (case read_vectors pf vector_file (no_length_normalize opt) (no_mean_normalize opt) initial of
        Undefined \<Rightarrow> Crash
      | Returns ret st1 \<Rightarrow>
          if ret \<noteq> 0 then Exit ret []
          else
           (case read_seed_set seed_file st1 of
              Undefined \<Rightarrow> Crash
            | Returns ret st2 \<Rightarrow>
                if ret \<noteq> 0 then Exit ret []
                else
                 (case expand ex opt (seed_vecids (word2vecid st2) (word2pol st2) []) (NWE st2) of
                    None \<Rightarrow> Thrown
                  | Some vecid2pol \<Rightarrow>
                     (case output_terms vecid2pol st2 of
                        Ok (out, st3) \<Rightarrow> Exit 0 out
                      | Goto_error_exit \<Rightarrow> Crash
                      | Undefined_behaviour \<Rightarrow> Crash))))"

text \<open>
  For the examples: options that switch both normalization passes off and select the
  first strategy, and expansion functions that add no label.
\<close>

definition example_options :: Option where
  "example_options =
     \<lparr>knn = 5, n_terms = - 1, no_length_normalize = True, no_mean_normalize = True,
      etype = NC_CLUSTERING\<rparr>"

definition example_expansion :: expansion where
  "example_expansion =
     \<lparr>expand_nearest_centroids = (\<lambda>vecid2pol A n. Some vecid2pol),
      expand_knn = (\<lambda>vecid2pol A n k. Some vecid2pol),
      expand_pca = (\<lambda>vecid2pol A n. Some vecid2pol),
      expand_projected = (\<lambda>vecid2pol A n. Some vecid2pol),
      expand_linear_transform = (\<lambda>vecid2pol A n. Some vecid2pol)\<rparr>"

section \<open>Facts about the containers\<close>

lemma find_key_emplace:
  "find_key (emplace k v m) k' = (case find_key m k' of Some v' \<Rightarrow> Some v' | None \<Rightarrow> if k' = k then Some v else None)"
  by (auto simp: find_key_def emplace_def map_add_def split: option.splits)

lemma find_key_emplace_other:
  "k' \<noteq> k \<Longrightarrow> find_key (emplace k v m) k' = find_key m k'"
  by (simp add: find_key_emplace split: option.splits)

lemma find_key_emplace_kept:
  "find_key m k' = Some v' \<Longrightarrow> find_key (emplace k v m) k' = Some v'"
  by (simp add: find_key_emplace)

section \<open>The seed set loader: duplicated words\<close>

lemma seed_loop_keeps:
  "seed_loop ls m = Ok m' \<Longrightarrow> find_key m w = Some p \<Longrightarrow> find_key m' w = Some p"
proof (induction ls arbitrary: m)
  case Nil
  then show ?case by simp
next
  case (Cons l ls)
  show ?case
  proof (cases "l = []")
    case True
    with Cons show ?thesis by simp
  next
    case False
    with Cons.prems(1) obtain w' q where l: "seed_line l = Ok (w', q)"
      and rest: "seed_loop ls (emplace w' q m) = Ok m'"
      by (auto split: attempt.splits)
    from Cons.prems(2) have "find_key (emplace w' q m) w = Some p"
      by (rule find_key_emplace_kept)
    with rest show ?thesis by (rule Cons.IH)
  qed
qed

lemma seed_loop_first:
  assumes "seed_loop (pre @ l # post) m = Ok m'"
    and "find_key m w = None"
    and "l \<noteq> []" and "seed_line l = Ok (w, p)"
    and "\<forall>l' \<in> set pre. l' \<noteq> [] \<longrightarrow> (\<forall>q. seed_line l' \<noteq> Ok (w, q))"
  shows "find_key m' w = Some p"
  using assms
proof (induction pre arbitrary: m)
  case Nil
  then have rest: "seed_loop post (emplace w p m) = Ok m'"
    by simp
  from Nil.prems(2) have "find_key (emplace w p m) w = Some p"
    by (simp add: find_key_emplace)
  with rest show ?case by (rule seed_loop_keeps)
next
  case (Cons a pre)
  show ?case
  proof (cases "a = []")
    case True
    with Cons show ?thesis by simp
  next
    case False
    with Cons.prems(1) obtain w' q where a: "seed_line a = Ok (w', q)"
      and rest: "seed_loop (pre @ l # post) (emplace w' q m) = Ok m'"
      by (auto split: attempt.splits)
    from a False Cons.prems(5) have "w' \<noteq> w"
      by auto
    with Cons.prems(2) have "find_key (emplace w' q m) w = None"
      by (simp add: find_key_emplace_other)
    from Cons.prems(5) have "\<forall>l' \<in> set pre. l' \<noteq> [] \<longrightarrow> (\<forall>q. seed_line l' \<noteq> Ok (w, q))"
      by simp
    with rest \<open>find_key (emplace w' q m) w = None\<close> Cons.prems(3,4) show ?thesis
      by (rule Cons.IH)
  qed
qed

text \<open>
  C1 (as amended). When a word occurs on several lines of the seed file, the first line
  that has it decides: if the loader succeeds on a file in which the line \<open>l\<close> gives the
  word \<open>w\<close> the polarity \<open>p\<close> and no non-empty line before \<open>l\<close> gives \<open>w\<close> a polarity,
  then the resulting map assigns \<open>p\<close> to \<open>w\<close>, whatever the lines after \<open>l\<close> say.
\<close>

theorem read_seed_set_first_occurrence_wins:
  assumes "read_seed_set (Some is) st = Returns 0 st'"
    and "word2pol st = []"
    and "content is = pre @ l # post"
    and "l \<noteq> []" and "seed_line l = Ok (w, p)"
    and "\<forall>l' \<in> set pre. l' \<noteq> [] \<longrightarrow> (\<forall>q. seed_line l' \<noteq> Ok (w, q))"
  shows "find_key (word2pol st') w = Some p"
proof -
  from assms(1) obtain m' where loop: "seed_loop (content is) (word2pol st) = Ok m'"
    and st': "st' = st\<lparr>word2pol := m'\<rparr>"
    by (auto simp: read_seed_set_def seed_error_exit_def split: attempt.splits if_splits)
  from loop assms(2,3) have "seed_loop (pre @ l # post) [] = Ok m'"
    by simp
  then have "find_key m' w = Some p"
    using _ assms(4-6) by (rule seed_loop_first) (simp add: find_key_def)
  with st' show ?thesis by simp
qed

lemmas seed_line_unfold =
  seed_line_def normalize_str_def rtrim_def ltrim_def isspace_def tolower_def
  skip_blanks.simps walk_back.simps char_at_def isspace_at_def npos_def incr_def polarity_at_def
  compare_eq_def positive_def negative_def neutral_def

lemma seed_line_good_positive:
  "seed_line (''good'' @ TAB # ''positive'') = Ok (''good'', POSITIVE)"
  by (simp add: seed_line_unfold)

lemma seed_line_good_negative:
  "seed_line (''good'' @ TAB # ''negative'') = Ok (''good'', NEGATIVE)"
  by (simp add: seed_line_unfold)

lemma read_seed_set_good_twice:
  "read_seed_set
     (Some \<lparr>content = [''good'' @ TAB # ''positive'', ''good'' @ TAB # ''negative''], ending = Eof\<rparr>)
     initial
   = Returns 0 (initial\<lparr>word2pol := [(''good'', POSITIVE)]\<rparr>)"
  by (simp add: read_seed_set_def initial_def seed_line_good_positive [simplified]
      seed_line_good_negative [simplified] emplace_def find_key_def)

theorem read_seed_set_first_occurrence_wins_witness:
  "read_seed_set
     (Some \<lparr>content = [''good'' @ TAB # ''positive'', ''good'' @ TAB # ''negative''], ending = Eof\<rparr>)
     initial
   = Returns 0 (initial\<lparr>word2pol := [(''good'', POSITIVE)]\<rparr>)
   \<and> find_key (word2pol (initial\<lparr>word2pol := [(''good'', POSITIVE)]\<rparr>)) ''good'' = Some POSITIVE"
proof -
  have "find_key (word2pol (initial\<lparr>word2pol := [(''good'', POSITIVE)]\<rparr>)) ''good'' = Some POSITIVE"
    by (rule read_seed_set_first_occurrence_wins
        [OF read_seed_set_good_twice, where pre = "[]" and l = "''good'' @ TAB # ''positive''"
          and post = "[''good'' @ TAB # ''negative'']"])
      (simp_all add: initial_def seed_line_good_positive [simplified])
  with read_seed_set_good_twice show ?thesis by simp
qed

text \<open>
  The claim C1 as it is stated fails: on the file whose two lines give \<open>good\<close> first
  the polarity positive and then negative, the loader succeeds and the map holds the
  polarity of the first line, not that of the last-read one.
\<close>

theorem read_seed_set_last_occurrence_counterexample:
  "read_seed_set
     (Some \<lparr>content = [''good'' @ TAB # ''positive'', ''good'' @ TAB # ''negative''], ending = Eof\<rparr>)
     initial
   = Returns 0 (initial\<lparr>word2pol := [(''good'', POSITIVE)]\<rparr>)
   \<and> seed_line (''good'' @ TAB # ''negative'') = Ok (''good'', NEGATIVE)
   \<and> find_key (word2pol (initial\<lparr>word2pol := [(''good'', POSITIVE)]\<rparr>)) ''good'' \<noteq> Some NEGATIVE"
  by (simp add: read_seed_set_good_twice [simplified] seed_line_good_negative [simplified] find_key_def)

section \<open>The seed set loader: lines without a tab\<close>

lemma seed_line_positive_only:
  "seed_line ''positive'' = Undefined_behaviour"
  by (simp add: seed_line_unfold)

text \<open>
  C2. A seed file whose only line is \<open>positive\<close>, with no tab: the test for \<open>npos\<close>
  comes after the increment that has wrapped the position around to 0, the line passes
  as the label at position 0, and the loader then reads \<open>iline[npos]\<close>. It does not
  reach \<^verbatim>\<open>error_exit\<close>.
\<close>

theorem read_seed_set_no_tab_not_rejected:
  "read_seed_set (Some \<lparr>content = [''positive''], ending = Eof\<rparr>) initial = Undefined"
  by (simp add: read_seed_set_def seed_line_positive_only)
section \<open>Merging and printing: the index\<close>


lemma find_key_in_set: "find_key m k = Some v \<Longrightarrow> (k, v) \<in> set m"
  by (simp add: find_key_def map_of_SomeD)

lemma distinct_emplace: "distinct (map fst m) \<Longrightarrow> distinct (map fst (emplace k v m))"
  by (auto simp: emplace_def find_key_def map_of_eq_None_iff split: option.splits)

lemma merge_terms_keeps:
  "merge_terms v2w l m = Ok m' \<Longrightarrow> find_key m w = Some p \<Longrightarrow> find_key m' w = Some p"
proof (induction v2w l m rule: merge_terms.induct)
  case (1 v2w m)
  then show ?case by simp
next
  case (2 v2w vecid pol rest m)
  from "2.prems"(1) obtain w' where w': "find_key v2w vecid = Some w'"
    and rest: "merge_terms v2w rest (emplace w' pol m) = Ok m'"
    by (auto split: option.splits)
  from "2.prems"(2) have "find_key (emplace w' pol m) w = Some p"
    by (rule find_key_emplace_kept)
  with w' rest show ?case by (rule "2.IH")
qed




lemma merge_terms_distinct:
  "merge_terms v2w l m = Ok m' \<Longrightarrow> distinct (map fst m) \<Longrightarrow> distinct (map fst m')"
  by (induction v2w l m rule: merge_terms.induct) (auto simp: distinct_emplace split: option.splits)

lemma set_insort_by: "set (insort_by lt x ys) = insert x (set ys)"
  by (induction ys) auto

lemma set_sort_by: "set (sort_by lt xs) = set xs"
  by (induction xs) (auto simp: sort_by_def set_insort_by)

lemma of_char_eq_0: "(of_char c :: nat) = 0 \<longleftrightarrow> c = NUL"
  using of_char_eq_iff [of c NUL, where ?'a = nat] by simp

lemma of_char_pos: "0 < (of_char c :: nat) \<longleftrightarrow> c \<noteq> NUL"
proof -
  have "0 < (of_char c :: nat) \<longleftrightarrow> (of_char c :: nat) \<noteq> 0"
    by (rule neq0_conv [symmetric])
  also have "\<dots> \<longleftrightarrow> c \<noteq> NUL"
    by (simp only: of_char_eq_0)
  finally show ?thesis .
qed

lemma strcmp_less:
  "NUL \<notin> set a \<Longrightarrow> NUL \<notin> set b \<Longrightarrow> strcmp a b < 0 \<longleftrightarrow> a < b"
proof (induction a b rule: strcmp.induct)
  case (2 y ys)
  then show ?case by (auto simp: of_char_pos)
next
  case (4 x xs y ys)
  then show ?case by (auto simp: less_char_def)
qed simp_all

lemma c_str_id: "NUL \<notin> set w \<Longrightarrow> c_str w = w"
  by (auto simp: c_str_def)

lemma insort_by_wp_less:
  "NUL \<notin> set (m_word x) \<Longrightarrow> \<forall>y \<in> set ys. NUL \<notin> set (m_word y) \<Longrightarrow>
   insort_by wp_less x ys = insort_key m_word x ys"
  by (induction ys) (auto simp: wp_less_def strcmp_less)

lemma sort_by_wp_less:
  "\<forall>y \<in> set xs. NUL \<notin> set (m_word y) \<Longrightarrow> sort_by wp_less xs = sort_key m_word xs"
proof (induction xs)
  case Nil
  then show ?case by (simp add: sort_by_def)
next
  case (Cons x xs)
  then have "sort_by wp_less xs = sort_key m_word xs" by simp
  moreover from Cons.prems have "\<forall>y \<in> set (sort_key m_word xs). NUL \<notin> set (m_word y)" by simp
  ultimately show ?case
    using Cons.prems by (simp add: sort_by_def sort_key_def insort_by_wp_less)
qed

lemma populate_plain:
  "\<forall>w \<in> set (map fst m). NUL \<notin> set w \<Longrightarrow>
   populate m = map (\<lambda>(w, p). \<lparr>m_word = w, m_polarity = p\<rparr>) m"
  by (auto simp: populate_def c_str_id)

lemma distinct_map_insort_key:
  "distinct (map f (insort_key f x xs)) \<longleftrightarrow> f x \<notin> f ` set xs \<and> distinct (map f xs)"
  by (induction xs) (auto simp: set_insort_key)

lemma distinct_map_sort_key:
  "distinct (map f (sort_key f xs)) \<longleftrightarrow> distinct (map f xs)"
  by (induction xs) (auto simp: distinct_map_insort_key)

lemma sorted_terms_plain:
  assumes "\<forall>w \<in> set (map fst m). NUL \<notin> set w"
  shows "sorted_terms m = sort_key m_word (map (\<lambda>(w, p). \<lparr>m_word = w, m_polarity = p\<rparr>) m)"
proof -
  let ?wpv = "map (\<lambda>(w, p). \<lparr>m_word = w, m_polarity = p\<rparr>) m"
  from assms have pop: "populate m = ?wpv" by (rule populate_plain)
  from assms have "\<forall>y \<in> set ?wpv. NUL \<notin> set (m_word y)" by auto
  then show ?thesis
    by (simp add: sorted_terms_def pop sort_by_wp_less)
qed

lemma sorted_terms_strict:
  assumes "distinct (map fst m)" and "\<forall>w \<in> set (map fst m). NUL \<notin> set w"
  shows "sorted_wrt (<) (map m_word (sorted_terms m))"
proof -
  let ?wpv = "map (\<lambda>(w, p). \<lparr>m_word = w, m_polarity = p\<rparr>) m"
  have words: "map m_word ?wpv = map fst m" by (induction m) auto
  from assms(2) have st: "sorted_terms m = sort_key m_word ?wpv" by (rule sorted_terms_plain)
  have "sorted (map m_word (sort_key m_word ?wpv))"
    by (rule sorted_sort_key)
  moreover from assms(1) have "distinct (map m_word (sort_key m_word ?wpv))"
    by (simp only: distinct_map_sort_key words)
  ultimately show ?thesis
    by (simp only: st strict_sorted_iff)
qed

lemma set_sorted_terms:
  "set (sorted_terms m) = (\<lambda>(w, p). \<lparr>m_word = c_str w, m_polarity = p\<rparr>) ` set m"
  by (simp add: sorted_terms_def set_sort_by populate_def)

lemma polarity_name_cases:
  "polarity_name p \<in> {''positive'', ''negative'', ''neutral''}"
  by (cases p) (simp_all add: polarity_name_def positive_def negative_def neutral_def)

lemma length_insort_by: "length (insort_by lt x ys) = Suc (length ys)"
  by (induction ys) auto

lemma length_sort_by: "length (sort_by lt xs) = length xs"
  by (induction xs) (auto simp: sort_by_def length_insort_by)

lemma output_terms_OkD:
  assumes "output_terms a_vecid2pol st = Ok (out, st')"
  shows "merge_terms (vecid2word st) a_vecid2pol (word2pol st) = Ok (word2pol st')"
    and "st' = st\<lparr>word2pol := word2pol st'\<rparr>"
    and "out = print_terms (sorted_terms (word2pol st'))"
  using assms by (auto simp: output_terms_def split: attempt.splits)


lemmas output_unfold =
  output_terms_def sorted_terms_def populate_def sort_by_def wp_less_def c_str_def
  print_terms_def print_term_def polarity_name_def positive_def negative_def neutral_def
  emplace_def find_key_def


text \<open>
  C9 (as amended). When no word of the final index contains a NUL byte, the output is
  the concatenation of one line \<open>word TAB name NL\<close> for each entry of the index, the name
  being one of the three literals, in strictly ascending byte-wise lexicographic order
  of the words: sorted and without a repeated word.
\<close>

theorem output_terms_sorted_lines:
  assumes "output_terms a_vecid2pol st = Ok (out, st')"
    and "distinct (map fst (word2pol st'))"
    and "\<forall>w \<in> set (map fst (word2pol st')). NUL \<notin> set w"
  shows "out = concat (map (\<lambda>wp. m_word wp @ [TAB] @ polarity_name (m_polarity wp) @ [NL])
                 (sorted_terms (word2pol st')))
    \<and> (\<forall>wp \<in> set (sorted_terms (word2pol st')).
          polarity_name (m_polarity wp) \<in> {''positive'', ''negative'', ''neutral''})
    \<and> sorted_wrt (<) (map m_word (sorted_terms (word2pol st')))
    \<and> set (sorted_terms (word2pol st')) = (\<lambda>(w, p). \<lparr>m_word = w, m_polarity = p\<rparr>) ` set (word2pol st')
    \<and> length (sorted_terms (word2pol st')) = length (word2pol st')"
proof (intro conjI ballI)
  from output_terms_OkD(3) [OF assms(1)]
  show "out = concat (map (\<lambda>wp. m_word wp @ [TAB] @ polarity_name (m_polarity wp) @ [NL])
                 (sorted_terms (word2pol st')))"
    by (simp add: print_terms_def print_term_def [abs_def])
next
  fix wp
  show "polarity_name (m_polarity wp) \<in> {''positive'', ''negative'', ''neutral''}"
    by (rule polarity_name_cases)
next
  from assms(2,3) show "sorted_wrt (<) (map m_word (sorted_terms (word2pol st')))"
    by (rule sorted_terms_strict)
next
  from assms(3) have "populate (word2pol st') = map (\<lambda>(w, p). \<lparr>m_word = w, m_polarity = p\<rparr>) (word2pol st')"
    by (rule populate_plain)
  then show "set (sorted_terms (word2pol st')) = (\<lambda>(w, p). \<lparr>m_word = w, m_polarity = p\<rparr>) ` set (word2pol st')"
    by (simp add: sorted_terms_def set_sort_by)
next
  show "length (sorted_terms (word2pol st')) = length (word2pol st')"
    by (simp add: sorted_terms_def length_sort_by populate_def)
qed

lemma seed_line_a0b:
  "seed_line (''a'' @ NUL # ''b'' @ TAB # ''positive'') = Ok (''a'' @ NUL # ''b'', POSITIVE)"
  by (simp add: seed_line_unfold)

lemma seed_line_a0c:
  "seed_line (''a'' @ NUL # ''c'' @ TAB # ''negative'') = Ok (''a'' @ NUL # ''c'', NEGATIVE)"
  by (simp add: seed_line_unfold)

text \<open>
  The claim C9 as it is stated fails for words with a NUL byte. The seed file gives the
  words \<open>a NUL b\<close> and \<open>a NUL c\<close>; both are printed as the C string \<open>a\<close>, and the output
  has the word \<open>a\<close> twice.
\<close>

theorem output_terms_repeated_word_counterexample:
  "read_seed_set
     (Some \<lparr>content = [''a'' @ NUL # ''b'' @ TAB # ''positive'', ''a'' @ NUL # ''c'' @ TAB # ''negative''],
            ending = Eof\<rparr>) initial
   = Returns 0 (initial\<lparr>word2pol := [(''a'' @ NUL # ''b'', POSITIVE), (''a'' @ NUL # ''c'', NEGATIVE)]\<rparr>)
   \<and> output_terms []
        (initial\<lparr>word2pol := [(''a'' @ NUL # ''b'', POSITIVE), (''a'' @ NUL # ''c'', NEGATIVE)]\<rparr>)
   = Ok (''a'' @ TAB # ''positive'' @ NL # ''a'' @ TAB # ''negative'' @ [NL],
         initial\<lparr>word2pol := [(''a'' @ NUL # ''b'', POSITIVE), (''a'' @ NUL # ''c'', NEGATIVE)]\<rparr>)
   \<and> map m_word (sorted_terms [(''a'' @ NUL # ''b'', POSITIVE), (''a'' @ NUL # ''c'', NEGATIVE)])
     = [''a'', ''a'']"
  by (simp add: read_seed_set_def seed_line_a0b [simplified] seed_line_a0c [simplified]
      output_unfold initial_def)

theorem output_terms_sorted_lines_witness:
  "output_terms [(1, NEGATIVE)]
     (initial\<lparr>vecid2word := [(0, ''good''), (1, ''bad'')], word2pol := [(''good'', POSITIVE)]\<rparr>)
   = Ok (''bad'' @ TAB # ''negative'' @ NL # ''good'' @ TAB # ''positive'' @ [NL],
         initial\<lparr>vecid2word := [(0, ''good''), (1, ''bad'')],
                  word2pol := [(''good'', POSITIVE), (''bad'', NEGATIVE)]\<rparr>)
   \<and> sorted_wrt (<) (map m_word (sorted_terms [(''good'', POSITIVE), (''bad'', NEGATIVE)]))
   \<and> map m_word (sorted_terms [(''good'', POSITIVE), (''bad'', NEGATIVE)]) = [''bad'', ''good'']"
proof -
  have run: "output_terms [(1, NEGATIVE)]
     (initial\<lparr>vecid2word := [(0, ''good''), (1, ''bad'')], word2pol := [(''good'', POSITIVE)]\<rparr>)
   = Ok (''bad'' @ TAB # ''negative'' @ NL # ''good'' @ TAB # ''positive'' @ [NL],
         initial\<lparr>vecid2word := [(0, ''good''), (1, ''bad'')],
                  word2pol := [(''good'', POSITIVE), (''bad'', NEGATIVE)]\<rparr>)"
    by (simp add: output_unfold initial_def)
  have "sorted_wrt (<) (map m_word (sorted_terms (word2pol
      (initial\<lparr>vecid2word := [(0, ''good''), (1, ''bad'')],
                  word2pol := [(''good'', POSITIVE), (''bad'', NEGATIVE)]\<rparr>))))"
    using output_terms_sorted_lines [OF run] by simp
  moreover have "map m_word (sorted_terms [(''good'', POSITIVE), (''bad'', NEGATIVE)]) = [''bad'', ''good'']"
    by (simp add: output_unfold)
  ultimately show ?thesis using run by simp
qed
section \<open>The vector loader: the vocabulary\<close>

lemma vec_loop_ConsE:
  assumes "vec_loop pf n m icol irow (l # ls) st = Ok (irow', failed, st')" and "icol < n"
  obtains w cline A where "vec_word l = Ok (w, cline)"
    and "vec_loop pf n m (icol + 1) m ls
          (st\<lparr>word2vecid := emplace w icol (word2vecid st),
               vecid2word := emplace icol w (vecid2word st), NWE := A\<rparr>) = Ok (irow', failed, st')"
  using assms by (auto split: attempt.splits prod.splits if_splits simp: Let_def)

lemma find_key_fresh_id: "map fst v2w = [0..<icol] \<Longrightarrow> find_key v2w icol = None"
  by (metis find_key_def map_of_eq_None_iff atLeastLessThan_iff less_irrefl set_map set_upt)

lemma emplace_fresh_id:
  "map fst v2w = [0..<icol] \<Longrightarrow> emplace icol w v2w = v2w @ [(icol, w)]"
  by (simp add: emplace_def find_key_fresh_id)

lemma vec_loop_ids:
  assumes "vec_loop pf n m icol irow ls st = Ok (irow', failed, st')"
    and "map fst (vecid2word st) = [0..<icol]" and "icol \<le> n"
  shows "\<exists>ws. vecid2word st' = vecid2word st @ zip [icol..<icol + length ws] ws
    \<and> length ws = min (n - icol) (length ls)
    \<and> (\<forall>j<length ws. \<exists>cline. vec_word (ls ! j) = Ok (ws ! j, cline))"
  using assms
proof (induction ls arbitrary: icol irow st)
  case Nil
  then show ?case by simp
next
  case (Cons l ls)
  show ?case
  proof (cases "icol < n")
    case False
    with Cons.prems show ?thesis by simp
  next
    case True
    from Cons.prems(1) True obtain w cline A where w: "vec_word l = Ok (w, cline)"
      and rest: "vec_loop pf n m (icol + 1) m ls
          (st\<lparr>word2vecid := emplace w icol (word2vecid st),
               vecid2word := emplace icol w (vecid2word st), NWE := A\<rparr>) = Ok (irow', failed, st')"
      by (rule vec_loop_ConsE)
    let ?st1 = "st\<lparr>word2vecid := emplace w icol (word2vecid st),
               vecid2word := emplace icol w (vecid2word st), NWE := A\<rparr>"
    from Cons.prems(2) have v1: "vecid2word ?st1 = vecid2word st @ [(icol, w)]"
      by (simp add: emplace_fresh_id)
    with Cons.prems(2) have keys: "map fst (vecid2word ?st1) = [0..<icol + 1]"
      by simp
    from True have "icol + 1 \<le> n" by simp
    with rest keys obtain ws where
      ws: "vecid2word st' = vecid2word ?st1 @ zip [icol + 1..<icol + 1 + length ws] ws"
        "length ws = min (n - (icol + 1)) (length ls)"
        "\<forall>j<length ws. \<exists>cline. vec_word (ls ! j) = Ok (ws ! j, cline)"
      using Cons.IH by blast
    have "[icol..<icol + length (w # ws)] = icol # [icol + 1..<icol + 1 + length ws]"
      by (subst upt_rec) simp
    with ws(1) v1 have "vecid2word st' = vecid2word st @ zip [icol..<icol + length (w # ws)] (w # ws)"
      by simp
    moreover from ws(2) True have "length (w # ws) = min (n - icol) (length (l # ls))"
      by auto
    moreover from ws(3) w have "\<forall>j<length (w # ws). \<exists>cline. vec_word ((l # ls) ! j) = Ok ((w # ws) ! j, cline)"
      by (auto simp: nth_Cons split: nat.splits)
    ultimately show ?thesis by blast
  qed
qed

lemma vec_loop_word_to_id:
  assumes "vec_loop pf n m icol irow ls st = Ok (irow', failed, st')"
    and "map fst (vecid2word st) = [0..<icol]"
    and "\<forall>w i. find_key (word2vecid st) w = Some i \<longrightarrow> find_key (vecid2word st) i = Some w"
  shows "\<forall>w i. find_key (word2vecid st') w = Some i \<longrightarrow> find_key (vecid2word st') i = Some w"
  using assms
proof (induction ls arbitrary: icol irow st)
  case Nil
  then show ?case by simp
next
  case (Cons l ls)
  show ?case
  proof (cases "icol < n")
    case False
    with Cons.prems show ?thesis by simp
  next
    case True
    from Cons.prems(1) True obtain w cline A where w: "vec_word l = Ok (w, cline)"
      and rest: "vec_loop pf n m (icol + 1) m ls
          (st\<lparr>word2vecid := emplace w icol (word2vecid st),
               vecid2word := emplace icol w (vecid2word st), NWE := A\<rparr>) = Ok (irow', failed, st')"
      by (rule vec_loop_ConsE)
    let ?st1 = "st\<lparr>word2vecid := emplace w icol (word2vecid st),
               vecid2word := emplace icol w (vecid2word st), NWE := A\<rparr>"
    from Cons.prems(2) have keys: "map fst (vecid2word ?st1) = [0..<icol + 1]"
      by (simp add: emplace_fresh_id)
    from Cons.prems(2) have fresh: "find_key (vecid2word st) icol = None"
      by (rule find_key_fresh_id)
    have "\<forall>w' i. find_key (word2vecid ?st1) w' = Some i \<longrightarrow> find_key (vecid2word ?st1) i = Some w'"
      using Cons.prems(3) fresh
      by (auto simp: find_key_emplace split: option.splits if_splits)
    with rest keys show ?thesis by (rule Cons.IH)
  qed
qed

lemma vec_loop_id_to_word:
  assumes "vec_loop pf n m icol irow ls st = Ok (irow', failed, st')"
    and "map fst (vecid2word st) = [0..<icol]" and "icol \<le> n"
    and "\<forall>w i. find_key (word2vecid st) w = Some i \<longrightarrow> find_key (vecid2word st) i = Some w"
    and "\<forall>i w. find_key (vecid2word st) i = Some w \<longrightarrow> find_key (word2vecid st) w = Some i"
    and "distinct (map snd (vecid2word st'))"
  shows "\<forall>i w. find_key (vecid2word st') i = Some w \<longrightarrow> find_key (word2vecid st') w = Some i"
  using assms
proof (induction ls arbitrary: icol irow st)
  case Nil
  from Nil.prems(1) have "st' = st" by simp
  with Nil.prems(5) show ?case by simp
next
  case (Cons l ls)
  show ?case
  proof (cases "icol < n")
    case False
    with Cons.prems(1) have "st' = st" by simp
    with Cons.prems(5) show ?thesis by simp
  next
    case True
    from Cons.prems(1) True obtain w cline A where w: "vec_word l = Ok (w, cline)"
      and rest: "vec_loop pf n m (icol + 1) m ls
          (st\<lparr>word2vecid := emplace w icol (word2vecid st),
               vecid2word := emplace icol w (vecid2word st), NWE := A\<rparr>) = Ok (irow', failed, st')"
      by (rule vec_loop_ConsE)
    let ?st1 = "st\<lparr>word2vecid := emplace w icol (word2vecid st),
               vecid2word := emplace icol w (vecid2word st), NWE := A\<rparr>"
    from Cons.prems(2) have v1: "vecid2word ?st1 = vecid2word st @ [(icol, w)]"
      by (simp add: emplace_fresh_id)
    with Cons.prems(2) have keys: "map fst (vecid2word ?st1) = [0..<icol + 1]"
      by simp
    from True have le: "icol + 1 \<le> n" by simp
    from Cons.prems(2) have fresh: "find_key (vecid2word st) icol = None"
      by (rule find_key_fresh_id)
    have P1: "\<forall>w' i. find_key (word2vecid ?st1) w' = Some i \<longrightarrow> find_key (vecid2word ?st1) i = Some w'"
      using Cons.prems(4) fresh
      by (auto simp: find_key_emplace split: option.splits if_splits)
    from vec_loop_ids [OF rest keys le] obtain ws where
      "vecid2word st' = vecid2word ?st1 @ zip [icol + 1..<icol + 1 + length ws] ws"
      by blast
    then have "map snd (vecid2word st') =
        map snd (vecid2word st) @ w # map snd (zip [icol + 1..<icol + 1 + length ws] ws)"
      using v1 by simp
    with Cons.prems(6)
    have "distinct (map snd (vecid2word st) @ w # map snd (zip [icol + 1..<icol + 1 + length ws] ws))"
      by simp
    then have "w \<notin> snd ` set (vecid2word st)"
      by simp
    moreover have "find_key (word2vecid st) w = Some j \<Longrightarrow> w \<in> snd ` set (vecid2word st)" for j
    proof -
      assume "find_key (word2vecid st) w = Some j"
      with Cons.prems(4) have "find_key (vecid2word st) j = Some w" by blast
      then have "(j, w) \<in> set (vecid2word st)" by (simp add: find_key_def map_of_SomeD)
      then show ?thesis by force
    qed
    ultimately have new: "find_key (word2vecid st) w = None"
      by (cases "find_key (word2vecid st) w") auto
    have Q1: "\<forall>i w'. find_key (vecid2word ?st1) i = Some w' \<longrightarrow> find_key (word2vecid ?st1) w' = Some i"
    proof (intro allI impI)
      fix i w'
      assume "find_key (vecid2word ?st1) i = Some w'"
      then have a: "find_key (emplace icol w (vecid2word st)) i = Some w'"
        by simp
      show "find_key (word2vecid ?st1) w' = Some i"
      proof (cases "find_key (vecid2word st) i")
        case None
        with a have "i = icol" "w' = w"
          by (auto simp: find_key_emplace split: if_splits)
        with new show ?thesis
          by (simp add: find_key_emplace)
      next
        case (Some x)
        with a have "x = w'"
          by (simp add: find_key_emplace)
        with Some Cons.prems(5) have "find_key (word2vecid st) w' = Some i"
          by blast
        then show ?thesis
          by (simp add: find_key_emplace_kept)
      qed
    qed
    from rest keys le P1 Q1 Cons.prems(6) show ?thesis by (rule Cons.IH)
  qed
qed

lemma read_vectors_OkD:
  assumes "read_vectors pf (Some is) nl nm st = Returns 0 st'"
    and "skip_empty (content is) = (iline, rest, failed0)"
    and "sscanf_uu pf (c_str iline) = Some (ncolumns, mrows)"
  obtains irow failed st2 where
    "vec_loop pf ncolumns mrows 0 0 rest (st\<lparr>NWE := set_size pf mrows ncolumns\<rparr>) = Ok (irow, failed, st2)"
    and "st' = st2\<lparr>NWE := normalize_passes pf nl nm (NWE st2)\<rparr>"
  using assms
  by (auto simp: read_vectors_def vec_error_exit_def split: attempt.splits if_splits)

text \<open>
  C4 (as amended). After a successful load of a file that has as many data lines as its
  header declares, the ids of \<^verbatim>\<open>vecid2word\<close> are \<open>0, \<dots>, ncolumns - 1\<close> in this order,
  the id \<open>i\<close> has the word of the \<open>i\<close>-th data line, and every entry of \<^verbatim>\<open>word2vecid\<close>
  leads back to its word through \<^verbatim>\<open>vecid2word\<close>. When the words of the data lines are
  pairwise different, the converse holds too, and the two maps are inverses of each other.
\<close>

theorem read_vectors_vocabulary:
  assumes "read_vectors pf (Some is) nl nm st = Returns 0 st'"
    and "word2vecid st = []" and "vecid2word st = []"
    and "skip_empty (content is) = (iline, rest, failed0)"
    and "sscanf_uu pf (c_str iline) = Some (ncolumns, mrows)"
    and "ncolumns \<le> length rest"
  shows "map fst (vecid2word st') = [0..<ncolumns]
    \<and> (\<forall>i<ncolumns. \<exists>cline. vec_word (rest ! i) = Ok (snd (vecid2word st' ! i), cline))
    \<and> (\<forall>w i. find_key (word2vecid st') w = Some i \<longrightarrow> find_key (vecid2word st') i = Some w)
    \<and> (distinct (map snd (vecid2word st')) \<longrightarrow>
         (\<forall>i w. find_key (vecid2word st') i = Some w \<longrightarrow> find_key (word2vecid st') w = Some i))"
proof -
  let ?st1 = "st\<lparr>NWE := set_size pf mrows ncolumns\<rparr>"
  from assms(1,4,5) obtain irow failed st2 where
    loop: "vec_loop pf ncolumns mrows 0 0 rest ?st1 = Ok (irow, failed, st2)"
    and st': "st' = st2\<lparr>NWE := normalize_passes pf nl nm (NWE st2)\<rparr>"
    by (rule read_vectors_OkD)
  from st' have same: "vecid2word st' = vecid2word st2" "word2vecid st' = word2vecid st2"
    by simp_all
  from assms(3) have keys: "map fst (vecid2word ?st1) = [0..<0]"
    by simp
  from assms(2) have P: "\<forall>w i. find_key (word2vecid ?st1) w = Some i \<longrightarrow> find_key (vecid2word ?st1) i = Some w"
    by (simp add: find_key_def)
  from assms(3) have Q: "\<forall>i w. find_key (vecid2word ?st1) i = Some w \<longrightarrow> find_key (word2vecid ?st1) w = Some i"
    by (simp add: find_key_def)
  from vec_loop_ids [OF loop keys] assms(3,6) obtain ws where
    ws: "vecid2word st2 = zip [0..<length ws] ws" "length ws = ncolumns"
      "\<forall>j<length ws. \<exists>cline. vec_word (rest ! j) = Ok (ws ! j, cline)"
    by auto
  from ws(1,2) have "map fst (vecid2word st2) = [0..<ncolumns]"
    by simp
  moreover from ws have "\<forall>i<ncolumns. \<exists>cline. vec_word (rest ! i) = Ok (snd (vecid2word st2 ! i), cline)"
    by simp
  moreover from loop keys P
  have "\<forall>w i. find_key (word2vecid st2) w = Some i \<longrightarrow> find_key (vecid2word st2) i = Some w"
    by (rule vec_loop_word_to_id)
  moreover have "\<forall>i w. find_key (vecid2word st2) i = Some w \<longrightarrow> find_key (word2vecid st2) w = Some i"
    if "distinct (map snd (vecid2word st2))"
    using loop keys _ P Q that by (rule vec_loop_id_to_word) simp
  ultimately show ?thesis
    unfolding same by blast
qed

lemmas vec_word_unfold =
  vec_word_def walk_back.simps char_at_def isspace_at_def isspace_def npos_def incr_def c_str_def

lemma sscanf_uu_2_1: "sscanf_uu example_platform (c_str ''2 1'') = Some (2, 1)"
  by (simp add: example_platform_def c_str_def)

lemma vec_word_a_1: "vec_word ''a 1'' = Ok (''a'', '' 1'')"
  by (simp add: vec_word_unfold)

lemma vec_word_a_2: "vec_word ''a 2'' = Ok (''a'', '' 2'')"
  by (simp add: vec_word_unfold)

lemma vec_word_b_2: "vec_word ''b 2'' = Ok (''b'', '' 2'')"
  by (simp add: vec_word_unfold)

lemma scan_row_1: "scan_row example_platform 1 icol 0 '' 1'' A = (1, set_elem A 0 icol 1)"
  by (simp add: scan_row.simps example_platform_def)

lemma scan_row_2: "scan_row example_platform 1 icol 0 '' 2'' A = (1, set_elem A 0 icol 2)"
  by (simp add: scan_row.simps example_platform_def)

lemmas read_vectors_unfold =
  read_vectors_def normalize_passes_def emplace_def find_key_def initial_def

lemma read_vectors_a_b:
  "read_vectors example_platform (Some \<lparr>content = [''2 1'', ''a 1'', ''b 2''], ending = Eof\<rparr>)
     True True initial
   = Returns 0 (initial\<lparr>word2vecid := [(''a'', 0), (''b'', 1)], vecid2word := [(0, ''a''), (1, ''b'')],
       NWE := set_elem (set_elem (set_size example_platform 1 2) 0 0 1) 0 1 2\<rparr>)"
  by (simp add: read_vectors_unfold sscanf_uu_2_1 vec_word_a_1 vec_word_b_2
      scan_row_1 [simplified] scan_row_2 [simplified])

lemma read_vectors_a_a:
  "read_vectors example_platform (Some \<lparr>content = [''2 1'', ''a 1'', ''a 2''], ending = Eof\<rparr>)
     True True initial
   = Returns 0 (initial\<lparr>word2vecid := [(''a'', 0)], vecid2word := [(0, ''a''), (1, ''a'')],
       NWE := set_elem (set_elem (set_size example_platform 1 2) 0 0 1) 0 1 2\<rparr>)"
  by (simp add: read_vectors_unfold sscanf_uu_2_1 vec_word_a_1 vec_word_a_2
      scan_row_1 [simplified] scan_row_2 [simplified])

theorem read_vectors_vocabulary_witness:
  "read_vectors example_platform (Some \<lparr>content = [''2 1'', ''a 1'', ''b 2''], ending = Eof\<rparr>)
     True True initial
   = Returns 0 (initial\<lparr>word2vecid := [(''a'', 0), (''b'', 1)], vecid2word := [(0, ''a''), (1, ''b'')],
       NWE := set_elem (set_elem (set_size example_platform 1 2) 0 0 1) 0 1 2\<rparr>)
   \<and> map fst [(0::nat, ''a''), (1, ''b'')] = [0..<2]
   \<and> find_key [(0::nat, ''a''), (1, ''b'')] 1 = Some ''b''
   \<and> find_key [(''a'', 0::nat), (''b'', 1)] ''b'' = Some 1"
proof -
  note run = read_vectors_a_b
  have "skip_empty (content \<lparr>content = [''2 1'', ''a 1'', ''b 2''], ending = Eof\<rparr>)
      = (''2 1'', [''a 1'', ''b 2''], False)"
    by simp
  from read_vectors_vocabulary [OF run _ _ this sscanf_uu_2_1]
  have "map fst [(0::nat, ''a''), (1, ''b'')] = [0..<2]"
    by (simp add: initial_def)
  with run show ?thesis
    by (simp add: find_key_def)
qed

text \<open>
  The claim C4 as it is stated fails when the file repeats a word: the load succeeds, the
  ids 0 and 1 both have the word \<open>a\<close>, and \<^verbatim>\<open>word2vecid\<close> maps \<open>a\<close> to 0 only, so the
  two maps are not inverses of each other.
\<close>

theorem read_vectors_repeated_word_counterexample:
  "read_vectors example_platform (Some \<lparr>content = [''2 1'', ''a 1'', ''a 2''], ending = Eof\<rparr>)
     True True initial
   = Returns 0 (initial\<lparr>word2vecid := [(''a'', 0)], vecid2word := [(0, ''a''), (1, ''a'')],
       NWE := set_elem (set_elem (set_size example_platform 1 2) 0 0 1) 0 1 2\<rparr>)
   \<and> find_key [(0::nat, ''a''), (1, ''a'')] 1 = Some ''a''
   \<and> find_key [(''a'', 0::nat)] ''a'' \<noteq> Some 1"
  by (simp add: read_vectors_a_a find_key_def)

section \<open>The vector loader: a file with too few data lines\<close>

lemma sscanf_uu_3_2: "sscanf_uu example_platform (c_str ''3 2'') = Some (3, 2)"
  by (simp add: example_platform_def c_str_def)

lemma vec_word_good: "vec_word ''good 1.0 0.0'' = Ok (''good'', '' 1.0 0.0'')"
  by (simp add: vec_word_unfold)

lemma scan_row_good:
  "scan_row example_platform 2 0 0 '' 1.0 0.0'' A = (2, set_elem (set_elem A 0 0 1) 1 0 0)"
  by (simp add: scan_row.simps example_platform_def)

text \<open>
  C3. The header declares three words of two values each and one data line follows.
  The test after the loop compares \<^verbatim>\<open>irow\<close> with \<^verbatim>\<open>mrows\<close>, which the one line has
  made equal, and not \<^verbatim>\<open>icol\<close> with \<^verbatim>\<open>ncolumns\<close>: the loader returns 0 with a
  vocabulary of one word and a matrix of three columns, two of which it has never
  written.
\<close>

theorem read_vectors_short_file_accepted:
  "read_vectors example_platform
     (Some \<lparr>content = [''3 2'', ''good 1.0 0.0''], ending = Eof\<rparr>) True True initial
   = Returns 0 (initial\<lparr>word2vecid := [(''good'', 0)], vecid2word := [(0, ''good'')],
        NWE := set_elem (set_elem (set_size example_platform 2 3) 0 0 1) 1 0 0\<rparr>)
   \<and> n_cols (set_elem (set_elem (set_size example_platform 2 3) 0 0 1) 1 0 0) = 3"
  by (simp add: read_vectors_unfold sscanf_uu_3_2 vec_word_good scan_row_good
      set_elem_def set_size_def)

section \<open>The loaders: failure\<close>

text \<open>
  C5. Whenever the vector loader returns a code other than 0, the two vocabulary maps
  and the matrix are empty; whenever the seed set loader returns a code other than 0,
  \<^verbatim>\<open>word2pol\<close> is empty.
\<close>

theorem loaders_leave_nothing_on_failure:
  "(read_vectors pf vector_file nl nm st = Returns ret st' \<and> ret \<noteq> 0 \<longrightarrow>
      word2vecid st' = [] \<and> vecid2word st' = [] \<and> n_rows (NWE st') = 0 \<and> n_cols (NWE st') = 0)
   \<and> (read_seed_set seed_file st2 = Returns ret2 st2' \<and> ret2 \<noteq> 0 \<longrightarrow> word2pol st2' = [])"
proof -
  have "word2vecid st' = [] \<and> vecid2word st' = [] \<and> n_rows (NWE st') = 0 \<and> n_cols (NWE st') = 0"
    if "read_vectors pf vector_file nl nm st = Returns ret st' \<and> ret \<noteq> 0"
  proof -
    from that have "\<exists>s. st' = s\<lparr>word2vecid := [], vecid2word := [], NWE := empty_mat\<rparr>"
      by (auto simp: read_vectors_def vec_error_exit_def
          split: option.splits prod.splits attempt.splits if_splits)
    then show ?thesis
      by (auto simp: empty_mat_def)
  qed
  moreover have "word2pol st2' = []"
    if "read_seed_set seed_file st2 = Returns ret2 st2' \<and> ret2 \<noteq> 0"
  proof -
    from that have "\<exists>s. st2' = s\<lparr>word2pol := []\<rparr>"
      by (auto simp: read_seed_set_def seed_error_exit_def split: option.splits attempt.splits if_splits)
    then show ?thesis
      by auto
  qed
  ultimately show ?thesis
    by blast
qed

lemma vec_word_b_blank: "vec_word ''b '' = Ok (''b'', '' '')"
  by (simp add: vec_word_unfold)

lemma scan_row_blank: "scan_row example_platform 1 icol 0 '' '' A = (0, A)"
  by (simp add: scan_row.simps example_platform_def)

lemma read_vectors_second_line_bad:
  "read_vectors example_platform (Some \<lparr>content = [''2 1'', ''a 1'', ''b ''], ending = Eof\<rparr>)
     True True initial
   = Returns 1 initial"
  by (simp add: read_vectors_unfold sscanf_uu_2_1 vec_word_a_1 vec_word_b_blank
      scan_row_1 [simplified] scan_row_blank [simplified] vec_error_exit_def)

lemma seed_line_bad: "seed_line ''bad'' = Goto_error_exit"
  by (simp add: seed_line_unfold)

lemma read_seed_set_second_line_bad:
  "read_seed_set (Some \<lparr>content = [''good'' @ TAB # ''positive'', ''bad''], ending = Eof\<rparr>) initial
   = Returns 1 initial"
  by (simp add: read_seed_set_def seed_line_good_positive [simplified] seed_line_bad
      seed_error_exit_def initial_def)

theorem loaders_leave_nothing_on_failure_witness:
  "read_vectors example_platform (Some \<lparr>content = [''2 1'', ''a 1'', ''b ''], ending = Eof\<rparr>)
     True True initial = Returns 1 initial
   \<and> word2vecid initial = [] \<and> vecid2word initial = []
   \<and> n_rows (NWE initial) = 0 \<and> n_cols (NWE initial) = 0
   \<and> read_seed_set (Some \<lparr>content = [''good'' @ TAB # ''positive'', ''bad''], ending = Eof\<rparr>) initial
     = Returns 1 initial
   \<and> word2pol initial = []"
  using loaders_leave_nothing_on_failure
    [of example_platform "Some \<lparr>content = [''2 1'', ''a 1'', ''b ''], ending = Eof\<rparr>"
      True True initial 1 initial
      "Some \<lparr>content = [''good'' @ TAB # ''positive'', ''bad''], ending = Eof\<rparr>" initial 1 initial]
    read_vectors_second_line_bad read_seed_set_second_line_bad
  by simp
section \<open>The main program: seed words without a vector\<close>

lemma seed_vecids_absent:
  "find_key w2v w = None \<Longrightarrow>
   seed_vecids w2v m vecid2pol = seed_vecids w2v (filter (\<lambda>e. fst e \<noteq> w) m) vecid2pol"
  by (induction w2v m vecid2pol rule: seed_vecids.induct) (auto split: option.splits)

lemma main_Exit0D:
  assumes "main pf ex opt vector_file seed_file = Exit 0 out"
    and "read_vectors pf vector_file (no_length_normalize opt) (no_mean_normalize opt) initial
          = Returns 0 st1"
    and "read_seed_set seed_file st1 = Returns 0 st2"
  obtains vecid2pol st3 where
    "expand ex opt (seed_vecids (word2vecid st2) (word2pol st2) []) (NWE st2) = Some vecid2pol"
    and "output_terms vecid2pol st2 = Ok (out, st3)"
  using assms by (auto simp: main_def split: option.splits attempt.splits)

text \<open>
  C10. Let a run of the program end with the exit code 0. A seed word that
  \<^verbatim>\<open>word2vecid\<close> does not have adds nothing to the id-keyed labeling that is given to
  the expansion (the labeling is the one of the seed set without that word), and the
  output still has the line of the word, with its seed polarity.
\<close>

theorem main_seed_without_vector:
  assumes "main pf ex opt vector_file seed_file = Exit 0 out"
    and "read_vectors pf vector_file (no_length_normalize opt) (no_mean_normalize opt) initial
          = Returns 0 st1"
    and "read_seed_set seed_file st1 = Returns 0 st2"
    and "find_key (word2pol st2) w = Some p"
    and "find_key (word2vecid st2) w = None"
  shows "seed_vecids (word2vecid st2) (word2pol st2) []
      = seed_vecids (word2vecid st2) (filter (\<lambda>e. fst e \<noteq> w) (word2pol st2)) []
    \<and> (\<exists>wpv. out = print_terms wpv \<and> \<lparr>m_word = c_str w, m_polarity = p\<rparr> \<in> set wpv)"
proof
  from assms(5) show "seed_vecids (word2vecid st2) (word2pol st2) []
      = seed_vecids (word2vecid st2) (filter (\<lambda>e. fst e \<noteq> w) (word2pol st2)) []"
    by (rule seed_vecids_absent)
next
  from assms(1-3) obtain vecid2pol st3 where
    out: "output_terms vecid2pol st2 = Ok (out, st3)"
    by (rule main_Exit0D)
  note D = output_terms_OkD [OF out]
  from D(1) assms(4) have "find_key (word2pol st3) w = Some p"
    by (rule merge_terms_keeps)
  then have "(w, p) \<in> set (word2pol st3)"
    by (rule find_key_in_set)
  then have "\<lparr>m_word = c_str w, m_polarity = p\<rparr> \<in> set (sorted_terms (word2pol st3))"
    by (auto simp: set_sorted_terms)
  with D(3) show "\<exists>wpv. out = print_terms wpv \<and> \<lparr>m_word = c_str w, m_polarity = p\<rparr> \<in> set wpv"
    by blast
qed

lemma seed_line_a_positive:
  "seed_line (''a'' @ TAB # ''positive'') = Ok (''a'', POSITIVE)"
  by (simp add: seed_line_unfold)

lemma seed_line_zzz_negative:
  "seed_line (''zzz'' @ TAB # ''negative'') = Ok (''zzz'', NEGATIVE)"
  by (simp add: seed_line_unfold)

lemma read_seed_set_a_zzz:
  "word2pol st = [] \<Longrightarrow>
   read_seed_set (Some \<lparr>content = [''a'' @ TAB # ''positive'', ''zzz'' @ TAB # ''negative''],
      ending = Eof\<rparr>) st
   = Returns 0 (st\<lparr>word2pol := [(''a'', POSITIVE), (''zzz'', NEGATIVE)]\<rparr>)"
  by (simp add: read_seed_set_def seed_line_a_positive [simplified]
      seed_line_zzz_negative [simplified] emplace_def find_key_def)

lemma read_vectors_a_b_options:
  "read_vectors example_platform (Some \<lparr>content = [''2 1'', ''a 1'', ''b 2''], ending = Eof\<rparr>)
     (no_length_normalize example_options) (no_mean_normalize example_options) initial
   = Returns 0 (initial\<lparr>word2vecid := [(''a'', 0), (''b'', 1)], vecid2word := [(0, ''a''), (1, ''b'')],
       NWE := set_elem (set_elem (set_size example_platform 1 2) 0 0 1) 0 1 2\<rparr>)"
  by (simp add: example_options_def read_vectors_a_b)

lemma read_seed_set_a_zzz_loaded:
  "read_seed_set (Some \<lparr>content = [''a'' @ TAB # ''positive'', ''zzz'' @ TAB # ''negative''],
      ending = Eof\<rparr>)
     (initial\<lparr>word2vecid := [(''a'', 0), (''b'', 1)], vecid2word := [(0, ''a''), (1, ''b'')],
       NWE := set_elem (set_elem (set_size example_platform 1 2) 0 0 1) 0 1 2\<rparr>)
   = Returns 0 (initial\<lparr>word2vecid := [(''a'', 0), (''b'', 1)], vecid2word := [(0, ''a''), (1, ''b'')],
       NWE := set_elem (set_elem (set_size example_platform 1 2) 0 0 1) 0 1 2,
       word2pol := [(''a'', POSITIVE), (''zzz'', NEGATIVE)]\<rparr>)"
  by (rule read_seed_set_a_zzz) (simp add: initial_def)

lemma main_a_zzz:
  "main example_platform example_expansion example_options
     (Some \<lparr>content = [''2 1'', ''a 1'', ''b 2''], ending = Eof\<rparr>)
     (Some \<lparr>content = [''a'' @ TAB # ''positive'', ''zzz'' @ TAB # ''negative''], ending = Eof\<rparr>)
   = Exit 0 (''a'' @ TAB # ''positive'' @ NL # ''zzz'' @ TAB # ''negative'' @ [NL])"
  unfolding main_def read_vectors_a_b_options
  by (simp add: read_seed_set_a_zzz_loaded [simplified] expand_def example_expansion_def
      example_options_def output_unfold)

theorem main_seed_without_vector_witness:
  "main example_platform example_expansion example_options
     (Some \<lparr>content = [''2 1'', ''a 1'', ''b 2''], ending = Eof\<rparr>)
     (Some \<lparr>content = [''a'' @ TAB # ''positive'', ''zzz'' @ TAB # ''negative''], ending = Eof\<rparr>)
   = Exit 0 (''a'' @ TAB # ''positive'' @ NL # ''zzz'' @ TAB # ''negative'' @ [NL])
   \<and> find_key [(''a'', 0::nat), (''b'', 1)] ''zzz'' = None
   \<and> seed_vecids [(''a'', 0), (''b'', 1)] [(''a'', POSITIVE), (''zzz'', NEGATIVE)] []
     = seed_vecids [(''a'', 0), (''b'', 1)] [(''a'', POSITIVE)] []
   \<and> (\<exists>wpv. ''a'' @ TAB # ''positive'' @ NL # ''zzz'' @ TAB # ''negative'' @ [NL] = print_terms wpv
         \<and> \<lparr>m_word = ''zzz'', m_polarity = NEGATIVE\<rparr> \<in> set wpv)"
proof -
  have absent: "find_key [(''a'', 0::nat), (''b'', 1)] ''zzz'' = None"
    by (simp add: find_key_def)
  from main_seed_without_vector
    [OF main_a_zzz read_vectors_a_b_options read_seed_set_a_zzz_loaded,
      where w = "''zzz''" and p = NEGATIVE]
  have "seed_vecids [(''a'', 0), (''b'', 1)] [(''a'', POSITIVE), (''zzz'', NEGATIVE)] []
     = seed_vecids [(''a'', 0), (''b'', 1)] [(''a'', POSITIVE)] []
   \<and> (\<exists>wpv. ''a'' @ TAB # ''positive'' @ NL # ''zzz'' @ TAB # ''negative'' @ [NL] = print_terms wpv
         \<and> \<lparr>m_word = ''zzz'', m_polarity = NEGATIVE\<rparr> \<in> set wpv)"
    by (simp add: find_key_def c_str_def)
  with main_a_zzz absent show ?thesis
    by simp
qed
section \<open>Length normalization\<close>

lemma fold_accum_cong:
  "(\<And>j. j < n \<Longrightarrow> f j = g j) \<Longrightarrow>
   fold (\<lambda>j (s::real). acc s (f j)) [0..<n] a = fold (\<lambda>j s. acc s (g j)) [0..<n] a"
  by (induction n) simp_all

lemma sum_squares_cong:
  assumes "n_rows B = n_rows A" and "\<And>r. r < n_rows A \<Longrightarrow> elem B r c = elem A r c"
  shows "sum_squares pf B c = sum_squares pf A c"
proof -
  have "fold (\<lambda>j s. fp_accum pf s (elem B j c)) [0..<n_rows A] 0
      = fold (\<lambda>j s. fp_accum pf s (elem A j c)) [0..<n_rows A] 0"
    by (rule fold_accum_cong
        [where acc = "fp_accum pf" and f = "\<lambda>j. elem B j c" and g = "\<lambda>j. elem A j c"])
      (rule assms(2))
  with assms(1) show ?thesis
    by (simp add: sum_squares_def)
qed

lemma length_normalize_col_shape [simp]:
  "n_rows (length_normalize_col pf i A) = n_rows A"
  "n_cols (length_normalize_col pf i A) = n_cols A"
  by (simp_all add: length_normalize_col_def col_div_def Let_def)

lemma length_normalize_col_elem:
  "elem (length_normalize_col pf i A) r c
   = (if c = i \<and> r < n_rows A \<and> fp_sqrt pf (sum_squares pf A i) \<noteq> 0
      then fp_div pf (elem A r c) (fp_float pf (fp_sqrt pf (sum_squares pf A i)))
      else elem A r c)"
  by (simp add: length_normalize_col_def col_div_def Let_def)

lemma fold_length_normalize_col:
  "n_rows (fold (length_normalize_col pf) [0..<k] A) = n_rows A
   \<and> n_cols (fold (length_normalize_col pf) [0..<k] A) = n_cols A
   \<and> (\<forall>r c. elem (fold (length_normalize_col pf) [0..<k] A) r c
        = (if c < k \<and> r < n_rows A \<and> fp_sqrt pf (sum_squares pf A c) \<noteq> 0
           then fp_div pf (elem A r c) (fp_float pf (fp_sqrt pf (sum_squares pf A c)))
           else elem A r c))"
proof (induction k)
  case 0
  then show ?case by simp
next
  case (Suc k)
  let ?B = "fold (length_normalize_col pf) [0..<k] A"
  from Suc have shape: "n_rows ?B = n_rows A" "n_cols ?B = n_cols A"
    and el: "\<And>r c. elem ?B r c
        = (if c < k \<and> r < n_rows A \<and> fp_sqrt pf (sum_squares pf A c) \<noteq> 0
           then fp_div pf (elem A r c) (fp_float pf (fp_sqrt pf (sum_squares pf A c)))
           else elem A r c)"
    by simp_all
  have "sum_squares pf ?B k = sum_squares pf A k"
    using shape(1) by (rule sum_squares_cong) (simp add: el)
  then show ?case
    by (auto simp: length_normalize_col_elem shape el less_Suc_eq)
qed

lemma length_normalize_shape:
  "n_rows (length_normalize pf A) = n_rows A" "n_cols (length_normalize pf A) = n_cols A"
  by (simp_all add: length_normalize_def fold_length_normalize_col)

lemma length_normalize_elem:
  "elem (length_normalize pf A) r c
   = (if c < n_cols A \<and> r < n_rows A \<and> fp_sqrt pf (sum_squares pf A c) \<noteq> 0
      then fp_div pf (elem A r c) (fp_float pf (fp_sqrt pf (sum_squares pf A c)))
      else elem A r c)"
  by (simp add: length_normalize_def fold_length_normalize_col)

lemma fold_accum_zero:
  "acc 0 0 = (0::real) \<Longrightarrow> fold (\<lambda>j s. acc s 0) [0..<n] 0 = 0"
  by (induction n) simp_all

lemma sum_squares_zero_column:
  assumes "fp_accum pf 0 0 = 0" and "\<forall>r<n_rows A. elem A r c = 0"
  shows "sum_squares pf A c = 0"
proof -
  have "fold (\<lambda>j s. fp_accum pf s (elem A j c)) [0..<n_rows A] 0
      = fold (\<lambda>j s. fp_accum pf s 0) [0..<n_rows A] 0"
    by (rule fold_accum_cong
        [where acc = "fp_accum pf" and f = "\<lambda>j. elem A j c" and g = "\<lambda>j. 0"])
      (simp add: assms(2))
  then have "sum_squares pf A c = fold (\<lambda>j s. fp_accum pf s 0) [0..<n_rows A] 0"
    by (simp add: sum_squares_def)
  with assms(1) show ?thesis
    by (simp add: fold_accum_zero)
qed

lemma fold_add_upt:
  "fold (\<lambda>j (s::real). s + f j) [0..<n] a = a + (\<Sum>j<n. f j)"
  by (induction n) simp_all

lemma sum_squares_exact:
  "exact_arithmetic pf \<Longrightarrow> sum_squares pf A c = (\<Sum>r<n_rows A. (elem A r c)\<^sup>2)"
  by (simp add: exact_arithmetic_def sum_squares_def fold_add_upt power2_eq_square)

lemma length_normalize_elem_exact:
  assumes "exact_arithmetic pf"
  shows "elem (length_normalize pf A) r c
   = (if c < n_cols A \<and> r < n_rows A \<and> sqrt (sum_squares pf A c) \<noteq> 0
      then elem A r c / sqrt (sum_squares pf A c) else elem A r c)"
  using assms by (simp add: length_normalize_elem exact_arithmetic_def)

lemma sum_squares_nonneg: "exact_arithmetic pf \<Longrightarrow> 0 \<le> sum_squares pf A c"
  by (simp add: sum_squares_exact sum_nonneg)

lemma sum_squares_length_normalize:
  assumes "exact_arithmetic pf" and "c < n_cols A"
  shows "sum_squares pf (length_normalize pf A) c = (if sum_squares pf A c = 0 then 0 else 1)"
proof (cases "sum_squares pf A c = 0")
  case True
  have "sum_squares pf (length_normalize pf A) c = sum_squares pf A c"
    by (rule sum_squares_cong)
      (simp_all add: length_normalize_shape length_normalize_elem_exact [OF assms(1)] True)
  with True show ?thesis by simp
next
  case False
  let ?N = "sqrt (sum_squares pf A c)"
  from False have N: "?N \<noteq> 0" by simp
  have "sum_squares pf (length_normalize pf A) c = (\<Sum>r<n_rows A. (elem A r c / ?N)\<^sup>2)"
    using assms N
    by (simp add: sum_squares_exact [of pf "length_normalize pf A"] length_normalize_shape
        length_normalize_elem_exact)
  also have "\<dots> = (\<Sum>r<n_rows A. (elem A r c)\<^sup>2) / ?N\<^sup>2"
    by (simp add: power_divide sum_divide_distrib)
  also have "\<dots> = sum_squares pf A c / sum_squares pf A c"
    using assms(1) by (simp add: sum_squares_exact [symmetric] sum_squares_nonneg)
  finally show ?thesis using False by simp
qed

lemma length_normalize_idem:
  assumes "exact_arithmetic pf"
  shows "length_normalize pf (length_normalize pf A) = length_normalize pf A"
proof -
  let ?B = "length_normalize pf A"
  have "elem (length_normalize pf ?B) r c = elem ?B r c" for r c
  proof (cases "c < n_cols A")
    case True
    with assms show ?thesis
      by (simp add: length_normalize_elem_exact [of pf ?B] length_normalize_shape
          sum_squares_length_normalize)
  next
    case False
    with assms show ?thesis
      by (simp add: length_normalize_elem_exact [of pf ?B] length_normalize_shape)
  qed
  then have "elem (length_normalize pf ?B) = elem ?B"
    by (intro ext)
  moreover have "mat.more (length_normalize pf B) = mat.more B" for B :: mat
    by simp
  ultimately show ?thesis
    by (intro mat.equality) (simp_all add: length_normalize_shape)
qed

text \<open>
  C6 (as amended). On every platform, length normalization keeps the shape, leaves a
  column whose computed length is 0 as it is (the loop body returns the matrix it was
  given: nothing is divided), and divides every element of any other column by the
  computed length cast to \<^verbatim>\<open>float\<close>. A column of zeros is left as it is wherever \<open>0 + 0 * 0\<close>
  and \<open>sqrt 0\<close> are computed as 0. In exact arithmetic a column with the Euclidean norm 0
  is left as it is, every other column gets the norm 1, and a second application changes
  nothing.
\<close>

theorem length_normalize_columns:
  "(\<forall>c. fp_sqrt pf (sum_squares pf A c) = 0 \<longrightarrow>
      length_normalize_col pf c A = A \<and> (\<forall>r. elem (length_normalize pf A) r c = elem A r c))
   \<and> (\<forall>c<n_cols A. fp_sqrt pf (sum_squares pf A c) \<noteq> 0 \<longrightarrow>
      (\<forall>r<n_rows A. elem (length_normalize pf A) r c
         = fp_div pf (elem A r c) (fp_float pf (fp_sqrt pf (sum_squares pf A c)))))
   \<and> (fp_accum pf 0 0 = 0 \<and> fp_sqrt pf 0 = 0 \<longrightarrow>
      (\<forall>c. (\<forall>r<n_rows A. elem A r c = 0) \<longrightarrow>
        (\<forall>r. elem (length_normalize pf A) r c = elem A r c)))
   \<and> (exact_arithmetic pf \<longrightarrow>
        (\<forall>c<n_cols A. sqrt (\<Sum>r<n_rows A. (elem A r c)\<^sup>2) = 0 \<longrightarrow>
          (\<forall>r. elem (length_normalize pf A) r c = elem A r c))
      \<and> (\<forall>c<n_cols A. sqrt (\<Sum>r<n_rows A. (elem A r c)\<^sup>2) \<noteq> 0 \<longrightarrow>
          sqrt (\<Sum>r<n_rows A. (elem (length_normalize pf A) r c)\<^sup>2) = 1)
      \<and> length_normalize pf (length_normalize pf A) = length_normalize pf A)
   \<and> n_rows (length_normalize pf A) = n_rows A \<and> n_cols (length_normalize pf A) = n_cols A"
proof -
  have skipped: "length_normalize_col pf c A = A \<and> (\<forall>r. elem (length_normalize pf A) r c = elem A r c)"
    if "fp_sqrt pf (sum_squares pf A c) = 0" for c
    using that by (simp add: length_normalize_col_def length_normalize_elem)
  have divided: "elem (length_normalize pf A) r c
      = fp_div pf (elem A r c) (fp_float pf (fp_sqrt pf (sum_squares pf A c)))"
    if "c < n_cols A" and "fp_sqrt pf (sum_squares pf A c) \<noteq> 0" and "r < n_rows A" for c r
    using that by (simp add: length_normalize_elem)
  have zeros: "elem (length_normalize pf A) r c = elem A r c"
    if "fp_accum pf 0 0 = 0 \<and> fp_sqrt pf 0 = 0" and "\<forall>r<n_rows A. elem A r c = 0" for c r
  proof -
    from that have "sum_squares pf A c = 0"
      by (simp add: sum_squares_zero_column)
    with that(1) show ?thesis
      by (simp add: length_normalize_elem)
  qed
  have exact_zero: "elem (length_normalize pf A) r c = elem A r c"
    if "exact_arithmetic pf" and "sqrt (\<Sum>r<n_rows A. (elem A r c)\<^sup>2) = 0" for c r
    using that by (simp add: length_normalize_elem_exact sum_squares_exact)
  have exact_unit: "sqrt (\<Sum>r<n_rows A. (elem (length_normalize pf A) r c)\<^sup>2) = 1"
    if ex: "exact_arithmetic pf" and c: "c < n_cols A"
      and "sqrt (\<Sum>r<n_rows A. (elem A r c)\<^sup>2) \<noteq> 0" for c
  proof -
    from that have "sum_squares pf A c \<noteq> 0"
      by (simp add: sum_squares_exact)
    with ex c have "sum_squares pf (length_normalize pf A) c = 1"
      by (simp add: sum_squares_length_normalize)
    with ex show ?thesis
      by (simp add: sum_squares_exact [of pf "length_normalize pf A"] length_normalize_shape)
  qed
  from skipped divided zeros exact_zero exact_unit show ?thesis
    by (simp add: length_normalize_idem length_normalize_shape)
qed

lemma sqrt_25: "sqrt 25 = 5"
  by (rule real_sqrt_unique) simp_all

lemma exact_arithmetic_exact_platform: "exact_arithmetic exact_platform"
  by (simp add: exact_arithmetic_def exact_platform_def)

theorem length_normalize_columns_witness:
  "exact_arithmetic exact_platform
   \<and> sqrt (\<Sum>r<2. (elem \<lparr>n_rows = 2, n_cols = 2,
        elem = (\<lambda>r c. if c = 0 then (if r = 0 then 3 else 4) else 0)\<rparr> r 0)\<^sup>2) = 5
   \<and> sqrt (\<Sum>r<2. (elem (length_normalize exact_platform \<lparr>n_rows = 2, n_cols = 2,
        elem = (\<lambda>r c. if c = 0 then (if r = 0 then 3 else 4) else 0)\<rparr>) r 0)\<^sup>2) = 1
   \<and> sqrt (\<Sum>r<2. (elem \<lparr>n_rows = 2, n_cols = 2,
        elem = (\<lambda>r c. if c = 0 then (if r = 0 then 3 else 4) else 0)\<rparr> r 1)\<^sup>2) = 0
   \<and> elem (length_normalize exact_platform \<lparr>n_rows = 2, n_cols = 2,
        elem = (\<lambda>r c. if c = 0 then (if r = 0 then 3 else 4) else 0)\<rparr>) 0 1 = 0
   \<and> elem (length_normalize exact_platform \<lparr>n_rows = 2, n_cols = 2,
        elem = (\<lambda>r c. if c = 0 then (if r = 0 then 3 else 4) else 0)\<rparr>) 0 0 = 3 / 5
   \<and> length_normalize exact_platform (length_normalize exact_platform \<lparr>n_rows = 2, n_cols = 2,
        elem = (\<lambda>r c. if c = 0 then (if r = 0 then 3 else 4) else 0)\<rparr>)
     = length_normalize exact_platform \<lparr>n_rows = 2, n_cols = 2,
        elem = (\<lambda>r c. if c = 0 then (if r = 0 then 3 else 4) else 0)\<rparr>"
proof -
  let ?A = "\<lparr>n_rows = 2, n_cols = 2,
        elem = (\<lambda>r c. if c = 0 then (if r = 0 then 3 else 4) else 0 :: real)\<rparr>"
  note ex = exact_arithmetic_exact_platform
  have s0: "(\<Sum>r<n_rows ?A. (elem ?A r 0)\<^sup>2) = 25"
    by (simp add: lessThan_Suc numeral_2_eq_2)
  then have n0: "sqrt (\<Sum>r<n_rows ?A. (elem ?A r 0)\<^sup>2) = 5"
    by (simp only: sqrt_25)
  have n1: "sqrt (\<Sum>r<n_rows ?A. (elem ?A r 1)\<^sup>2) = 0"
    by simp
  note T = length_normalize_columns [of exact_platform ?A]
  note E = T [THEN conjunct2, THEN conjunct2, THEN conjunct2, THEN conjunct1, rule_format, OF ex]
  have unit: "sqrt (\<Sum>r<n_rows ?A. (elem (length_normalize exact_platform ?A) r 0)\<^sup>2) = 1"
    using E [THEN conjunct2, THEN conjunct1, rule_format, of 0] s0 by simp
  have zero: "elem (length_normalize exact_platform ?A) 0 1 = elem ?A 0 1"
    using E [THEN conjunct1, rule_format, of 1] n1 by simp
  have idem: "length_normalize exact_platform (length_normalize exact_platform ?A)
      = length_normalize exact_platform ?A"
    using E by (rule conjunct2 [OF conjunct2])
  have e: "elem (length_normalize exact_platform ?A) 0 0 = 3 / 5"
    using n0 by (simp add: length_normalize_elem_exact [OF ex] sum_squares_exact [OF ex])
  from ex n0 n1 unit zero idem e show ?thesis
    by simp
qed

lemma length_normalize_elem_at:
  assumes "sum_squares pf A c = S" and "fp_sqrt pf S = D" and "D \<noteq> 0" and "fp_float pf D = F"
    and "elem A r c = x" and "fp_div pf x F = q" and "c < n_cols A" and "r < n_rows A"
  shows "elem (length_normalize pf A) r c = q"
  using assms by (simp add: length_normalize_elem)

lemma example_sqrt: "fp_sqrt example_platform 37 = 6848581766208569 / 2 ^ 50"
  by (simp add: example_platform_def)

lemma example_float: "fp_float example_platform (6848581766208569 / 2 ^ 50) = 6378239 / 2 ^ 20"
  by (simp add: example_platform_def)

lemma example_div_1: "fp_div example_platform 1 (6378239 / 2 ^ 20) = 5923097560777695 / 2 ^ 55"
  by (simp add: example_platform_def)

lemma example_div_6: "fp_div example_platform 6 (6378239 / 2 ^ 20) = 4442323170583271 / 2 ^ 52"
  by (simp add: example_platform_def)

text \<open>
  The claim C6 as it is stated fails where the arithmetic rounds. For the column
  \<open>(1, 6)\<close> the computed length is the double nearest to \<open>sqrt 37\<close>, its cast to
  \<^verbatim>\<open>float\<close> is larger than \<open>sqrt 37\<close>, and the two quotients make a column whose
  Euclidean norm is below 1.
\<close>

theorem length_normalize_rounding_counterexample:
  "elem (length_normalize example_platform
      \<lparr>n_rows = 2, n_cols = 1, elem = (\<lambda>r c. if r = 0 then 1 else 6)\<rparr>) 0 0
     = 5923097560777695 / 2 ^ 55
   \<and> elem (length_normalize example_platform
      \<lparr>n_rows = 2, n_cols = 1, elem = (\<lambda>r c. if r = 0 then 1 else 6)\<rparr>) 1 0
     = 4442323170583271 / 2 ^ 52
   \<and> sqrt (\<Sum>r<2. (elem \<lparr>n_rows = 2, n_cols = 1, elem = (\<lambda>r c. if r = 0 then 1 else 6)\<rparr> r 0)\<^sup>2)
     \<noteq> 0
   \<and> sqrt (\<Sum>r<2. (elem (length_normalize example_platform
      \<lparr>n_rows = 2, n_cols = 1, elem = (\<lambda>r c. if r = 0 then 1 else 6)\<rparr>) r 0)\<^sup>2) \<noteq> 1"
proof -
  let ?A = "\<lparr>n_rows = 2, n_cols = 1, elem = (\<lambda>r c. if r = 0 then 1 else 6 :: real)\<rparr>"
  have s: "sum_squares example_platform ?A 0 = 37"
    by (simp add: sum_squares_def example_platform_def numeral_2_eq_2)
  have a: "elem (length_normalize example_platform ?A) 0 0 = 5923097560777695 / 2 ^ 55"
    by (rule length_normalize_elem_at [OF s example_sqrt _ example_float _ example_div_1]) simp_all
  have b: "elem (length_normalize example_platform ?A) 1 0 = 4442323170583271 / 2 ^ 52"
    by (rule length_normalize_elem_at [OF s example_sqrt _ example_float _ example_div_6]) simp_all
  have "(\<Sum>r<2. (elem (length_normalize example_platform ?A) r 0)\<^sup>2)
      = (elem (length_normalize example_platform ?A) 0 0)\<^sup>2
        + (elem (length_normalize example_platform ?A) 1 0)\<^sup>2"
    by (simp add: lessThan_Suc numeral_2_eq_2)
  then have eq: "(\<Sum>r<2. (elem (length_normalize example_platform ?A) r 0)\<^sup>2)
      = (5923097560777695 / 2 ^ 55)\<^sup>2 + (4442323170583271 / 2 ^ 52)\<^sup>2"
    by (simp only: a b)
  have ne: "(5923097560777695 / 2 ^ 55 :: real)\<^sup>2 + (4442323170583271 / 2 ^ 52)\<^sup>2 \<noteq> 1"
    by (simp add: power2_eq_square)
  have "(\<Sum>r<2. (elem (length_normalize example_platform ?A) r 0)\<^sup>2) \<noteq> 1"
    unfolding eq by (rule ne)
  then have "sqrt (\<Sum>r<2. (elem (length_normalize example_platform ?A) r 0)\<^sup>2) \<noteq> 1"
    using real_sqrt_eq_1_iff [of "\<Sum>r<2. (elem (length_normalize example_platform ?A) r 0)\<^sup>2"]
    by blast
  moreover have "sqrt (\<Sum>r<2. (elem ?A r 0)\<^sup>2) \<noteq> 0"
    by (simp add: lessThan_Suc numeral_2_eq_2)
  ultimately show ?thesis
    using a b by simp
qed
section \<open>Mean normalization\<close>

lemma row_sub_shape [simp]:
  "n_rows (row_sub A i x) = n_rows A" "n_cols (row_sub A i x) = n_cols A"
  by (simp_all add: row_sub_def)

lemma fold_row_sub:
  "k \<le> length vmean \<Longrightarrow>
   n_rows (fold (\<lambda>i B. row_sub B i (vmean ! i)) [0..<k] A) = n_rows A
   \<and> n_cols (fold (\<lambda>i B. row_sub B i (vmean ! i)) [0..<k] A) = n_cols A
   \<and> elem (fold (\<lambda>i B. row_sub B i (vmean ! i)) [0..<k] A) r c
      = (if r < k \<and> c < n_cols A then elem A r c - vmean ! r else elem A r c)"
proof (induction k)
  case 0
  then show ?case by simp
next
  case (Suc k)
  then show ?case by (auto simp: row_sub_def)
qed

lemma mean_normalize_shape:
  "n_rows (mean_normalize A) = n_rows A" "n_cols (mean_normalize A) = n_cols A"
  by (simp_all add: mean_normalize_def Let_def fold_row_sub)

lemma mean_normalize_elem:
  assumes "0 < n_cols A" and "r < n_rows A" and "c < n_cols A"
  shows "elem (mean_normalize A) r c = elem A r c - row_mean A r"
proof -
  from assms(1) have len: "length (arma_mean_rows A) = n_rows A"
    and nth: "arma_mean_rows A ! r = row_mean A r"
    using assms(2) by (simp_all add: arma_mean_rows_def)
  have "elem (mean_normalize A) r c
      = (if r < length (arma_mean_rows A) \<and> c < n_cols A then elem A r c - arma_mean_rows A ! r
         else elem A r c)"
    by (simp add: mean_normalize_def Let_def fold_row_sub)
  with assms(2,3) len nth show ?thesis by simp
qed

lemma row_mean_sum: "row_mean A r = (\<Sum>c = 0..<n_cols A. elem A r c) / real (n_cols A)"
  by (simp add: row_mean_def interv_sum_list_conv_sum_set_nat)

lemma mean_normalize_row_mean:
  assumes "0 < n_cols A" and "r < n_rows A"
  shows "row_mean (mean_normalize A) r = 0"
proof -
  let ?n = "n_cols A"
  have "(\<Sum>c = 0..<?n. elem (mean_normalize A) r c) = (\<Sum>c = 0..<?n. elem A r c - row_mean A r)"
    using assms by (intro sum.cong) (simp_all add: mean_normalize_elem)
  also have "\<dots> = (\<Sum>c = 0..<?n. elem A r c) - real ?n * row_mean A r"
    by (simp add: sum_subtractf)
  also from assms(1) have "real ?n * row_mean A r = (\<Sum>c = 0..<?n. elem A r c)"
    by (simp add: row_mean_sum)
  finally show ?thesis
    by (simp add: row_mean_sum mean_normalize_shape)
qed

text \<open>
  C7. Mean normalization of a matrix with at least one column keeps the shape, subtracts
  from every element the mean of its row, and leaves every row with the mean 0.
\<close>

theorem mean_normalize_centers_rows:
  assumes "0 < n_cols A"
  shows "n_rows (mean_normalize A) = n_rows A \<and> n_cols (mean_normalize A) = n_cols A
    \<and> (\<forall>r<n_rows A. \<forall>c<n_cols A. elem (mean_normalize A) r c = elem A r c - row_mean A r)
    \<and> (\<forall>r<n_rows A. row_mean (mean_normalize A) r = 0)"
  using assms
  by (simp add: mean_normalize_shape mean_normalize_elem mean_normalize_row_mean)

theorem mean_normalize_centers_rows_witness:
  "0 < n_cols \<lparr>n_rows = 1, n_cols = 2, elem = (\<lambda>r c. if c = 0 then 1 else 3)\<rparr>
   \<and> row_mean \<lparr>n_rows = 1, n_cols = 2, elem = (\<lambda>r c. if c = 0 then 1 else 3)\<rparr> 0 = 2
   \<and> elem (mean_normalize \<lparr>n_rows = 1, n_cols = 2, elem = (\<lambda>r c. if c = 0 then 1 else 3)\<rparr>) 0 0 = - 1
   \<and> elem (mean_normalize \<lparr>n_rows = 1, n_cols = 2, elem = (\<lambda>r c. if c = 0 then 1 else 3)\<rparr>) 0 1 = 1
   \<and> row_mean (mean_normalize \<lparr>n_rows = 1, n_cols = 2, elem = (\<lambda>r c. if c = 0 then 1 else 3)\<rparr>) 0 = 0
   \<and> n_cols (mean_normalize \<lparr>n_rows = 1, n_cols = 2, elem = (\<lambda>r c. if c = 0 then 1 else 3)\<rparr>) = 2"
proof -
  let ?A = "\<lparr>n_rows = 1, n_cols = 2, elem = (\<lambda>r c. if c = 0 then 1 else 3 :: real)\<rparr>"
  have pos: "0 < n_cols ?A" by simp
  have mean: "row_mean ?A 0 = 2"
    by (simp add: row_mean_def upt_rec)
  from mean_normalize_centers_rows [OF pos] mean pos show ?thesis
    by simp
qed

end
